theory Spec2Isabelle
  imports
    Complex_Main
    "HOL-Library.Char_ord"
    "HOL-Library.List_Lexorder"
    "HOL-Library.Product_Lexorder"
begin

section \<open>The shared table\<close>

text \<open>
  The program is \<^verbatim>\<open>streamlit_app.py\<close>: five functions over one pandas DataFrame \<^verbatim>\<open>df\<close>,
  which \<^verbatim>\<open>main\<close> passes from one to the next. Three of them assign columns of \<^verbatim>\<open>df\<close>
  in place, so each of these takes the table and returns the updated one beside its
  result.

  Modelling decisions.
  \<^item> A table is its set of column labels and its rows. Every read of a column is
    guarded by the label: reading a label that is not in \<open>columns\<close> is pandas'
    \<^verbatim>\<open>KeyError\<close>. A cell stored under a label that is not in \<open>columns\<close> is a
    placeholder and is never read.
  \<^item> Numbers are exact: \<^verbatim>\<open>QTY\<close> is an integer, prices and costs are rationals.
    Rounding of binary floating point is not modelled.
  \<^item> A date is (year, month, day) in lexicographic order; \<^verbatim>\<open>to_period('M')\<close> keeps
    (year, month). Missing values (NaN, NaT) are outside the model.
  \<^item> Strings are ordered lexicographically by character code, as Python orders them.
  \<^item> \<^verbatim>\<open>groupby\<close> yields its groups in ascending key order; \<^verbatim>\<open>sort_values\<close> is modelled
    as a stable sort.
\<close>

type_synonym date = "int \<times> nat \<times> nat"
type_synonym period = "int \<times> nat"

definition to_period :: "date \<Rightarrow> period" where
  "to_period d = (fst d, fst (snd d))"

definition to_timestamp :: "period \<Rightarrow> date" where
  "to_timestamp p = (fst p, snd p, 1)"

datatype error = KeyError string | ValueError

record line =
  Order_ID :: string
  Email :: string
  Date_placed :: date
  Date_Completed :: date
  SKU :: string
  QTY :: int
  Unit_Price :: rat
  Unit_Cost :: rat
  Revenue :: rat
  Profit :: rat
  Is_First_Item :: bool

record frame =
  columns :: "string set"
  rows :: "line list"

text \<open>\<^verbatim>\<open>load_data\<close>: the CSV is taken as parsed; the two date columns must exist.\<close>

definition load_data :: "frame \<Rightarrow> error + frame" where
  "load_data df =
     (if ''Date placed'' \<notin> columns df then Inl (KeyError ''Date placed'')
      else if ''Date Completed'' \<notin> columns df then Inl (KeyError ''Date Completed'')
      else Inr df)"

subsection \<open>pandas primitives\<close>

text \<open>The keys of \<^verbatim>\<open>groupby\<close>, ascending, and the rows of one group in row order.\<close>

definition group_keys :: "('a \<Rightarrow> 'k::linorder) \<Rightarrow> 'a list \<Rightarrow> 'k list" where
  "group_keys f xs = sort (remdups (map f xs))"

definition group_of :: "('a \<Rightarrow> 'k) \<Rightarrow> 'a list \<Rightarrow> 'k \<Rightarrow> 'a list" where
  "group_of f xs k = filter (\<lambda>x. f x = k) xs"

text \<open>\<^verbatim>\<open>Series.duplicated(keep='first')\<close>: true at every occurrence but the first.\<close>

fun duplicated_from :: "'a list \<Rightarrow> 'a list \<Rightarrow> bool list" where
  "duplicated_from seen [] = []"
| "duplicated_from seen (x # xs) = (x \<in> set seen) # duplicated_from (x # seen) xs"

definition duplicated :: "'a list \<Rightarrow> bool list" where
  "duplicated xs = duplicated_from [] xs"

text \<open>\<^verbatim>\<open>df['Is_First_Item'] = ~df['Order ID'].duplicated(keep='first')\<close>\<close>

definition set_Is_First_Item :: "line list \<Rightarrow> line list" where
  "set_Is_First_Item rs =
     map (\<lambda>(r, d). r\<lparr>Is_First_Item := \<not> d\<rparr>) (zip rs (duplicated (map Order_ID rs)))"

text \<open>
  \<^verbatim>\<open>df['Revenue'] = df['QTY'] * df['Unit Price']\<close> and
  \<^verbatim>\<open>df['Profit'] = (df['Unit Price'] - df['Unit Cost']) * df['QTY']\<close>
\<close>

definition set_Revenue :: "line list \<Rightarrow> line list" where
  "set_Revenue rs = map (\<lambda>r. r\<lparr>Revenue := of_int (QTY r) * Unit_Price r\<rparr>) rs"

definition set_Profit :: "line list \<Rightarrow> line list" where
  "set_Profit rs = map (\<lambda>r. r\<lparr>Profit := (Unit_Price r - Unit_Cost r) * of_int (QTY r)\<rparr>) rs"

text \<open>
  \<^verbatim>\<open>df.loc[df['Is_First_Item'], 'Revenue'] += 15\<close> and the same on \<^verbatim>\<open>'Profit'\<close>
\<close>

definition add_fee_Revenue :: "line list \<Rightarrow> line list" where
  "add_fee_Revenue rs = map (\<lambda>r. if Is_First_Item r then r\<lparr>Revenue := Revenue r + 15\<rparr> else r) rs"

definition add_fee_Profit :: "line list \<Rightarrow> line list" where
  "add_fee_Profit rs = map (\<lambda>r. if Is_First_Item r then r\<lparr>Profit := Profit r + 15\<rparr> else r) rs"

text \<open>\<^verbatim>\<open>Series.cumsum()\<close>\<close>

fun cumsum_from :: "rat \<Rightarrow> rat list \<Rightarrow> rat list" where
  "cumsum_from acc [] = []"
| "cumsum_from acc (x # xs) = (acc + x) # cumsum_from (acc + x) xs"

definition cumsum :: "rat list \<Rightarrow> rat list" where
  "cumsum xs = cumsum_from 0 xs"

section \<open>Order Aggregator and Cohort Summarizer: \<^verbatim>\<open>analyse_data\<close>\<close>

text \<open>The frame returned by \<^verbatim>\<open>groupby('Order ID').agg({...}).reset_index()\<close>.\<close>

record order_agg =
  a_Order_ID :: string
  a_Email :: string
  a_Date_placed :: date
  a_Revenue :: rat
  a_Unit_Cost :: rat

text \<open>The finished \<^verbatim>\<open>order_data\<close>.\<close>

record order_row =
  o_Order_ID :: string
  o_Email :: string
  o_Date_placed :: date
  o_Revenue :: rat
  o_Unit_Cost :: rat
  o_Profit :: rat
  o_Customer_Type :: string
  o_Month_Year :: period

definition agg_order :: "line list \<Rightarrow> string \<Rightarrow> order_agg" where
  "agg_order rs k =
     (let g = group_of Order_ID rs k in
      \<lparr>a_Order_ID = k,
       a_Email = Email (hd g),
       a_Date_placed = Date_placed (hd g),
       a_Revenue = sum_list (map Revenue g),
       a_Unit_Cost = sum_list (map (\<lambda>x. Unit_Cost x * of_int (QTY x)) g)\<rparr>)"

definition group_orders :: "line list \<Rightarrow> order_agg list" where
  "group_orders rs = map (agg_order rs) (group_keys Order_ID rs)"

text \<open>\<^verbatim>\<open>order_data.groupby('Email')['Date placed'].min()\<close>, a Series indexed by Email.\<close>

definition min_Date_placed :: "order_agg list \<Rightarrow> string \<Rightarrow> date" where
  "min_Date_placed os e = min_list (map a_Date_placed (group_of a_Email os e))"

definition first_purchase_dates :: "order_agg list \<Rightarrow> (string \<times> date) list" where
  "first_purchase_dates os = map (\<lambda>e. (e, min_Date_placed os e)) (group_keys a_Email os)"

text \<open>\<^verbatim>\<open>order_data['Revenue'] += 15\<close>, then \<^verbatim>\<open>sort_values('Date placed')\<close>\<close>

definition add_shipping :: "order_agg \<Rightarrow> order_agg" where
  "add_shipping a = a\<lparr>a_Revenue := a_Revenue a + 15\<rparr>"

definition sorted_orders :: "line list \<Rightarrow> order_agg list" where
  "sorted_orders rs = sort_key a_Date_placed (map add_shipping (group_orders rs))"

text \<open>
  One row of the finished table. \<^verbatim>\<open>Profit\<close> is assigned before the sort in the source;
  it is computed row by row, so it is the same column on the sorted rows.
\<close>

definition finish_order :: "order_agg \<Rightarrow> date \<Rightarrow> order_row" where
  "finish_order a first_date =
     \<lparr>o_Order_ID = a_Order_ID a,
      o_Email = a_Email a,
      o_Date_placed = a_Date_placed a,
      o_Revenue = a_Revenue a,
      o_Unit_Cost = a_Unit_Cost a,
      o_Profit = a_Revenue a - a_Unit_Cost a,
      o_Customer_Type = (if a_Date_placed a > first_date then ''Repeat'' else ''First-time''),
      o_Month_Year = to_period (a_Date_placed a)\<rparr>"

text \<open>
  \<^verbatim>\<open>order_data.apply(lambda row: ..., axis=1)\<close>: the lookup
  \<^verbatim>\<open>first_purchase_dates[row['Email']]\<close> raises \<^verbatim>\<open>KeyError\<close> on a missing key.
\<close>

fun label_orders :: "(string \<times> date) list \<Rightarrow> order_agg list \<Rightarrow> error + order_row list" where
  "label_orders fpd [] = Inr []"
| "label_orders fpd (a # as) =
     (case map_of fpd (a_Email a) of
        None \<Rightarrow> Inl (KeyError (a_Email a))
      | Some d \<Rightarrow>
          (case label_orders fpd as of
             Inl e \<Rightarrow> Inl e
           | Inr os \<Rightarrow> Inr (finish_order a d # os)))"

text \<open>
  A pivoted table: the labels of its value columns and, per \<^verbatim>\<open>Month-Year\<close>, the cells
  under those labels in the same order.
\<close>

record 'a matrix =
  m_columns :: "string list"
  m_rows :: "(period \<times> 'a list) list"

definition cell :: "'a matrix \<Rightarrow> period \<Rightarrow> string \<Rightarrow> 'a option" where
  "cell M m c =
     (case map_of (m_rows M) m of
        None \<Rightarrow> None
      | Some vs \<Rightarrow> map_of (zip (m_columns M) vs) c)"

text \<open>
  \<^verbatim>\<open>groupby(['Month-Year', 'Customer Type'])\<close> followed by an aggregation \<open>agg\<close> of each
  group, then \<^verbatim>\<open>unstack(fill_value=0).reset_index()\<close>.
\<close>

definition cohort :: "order_row \<Rightarrow> period \<times> string" where
  "cohort x = (o_Month_Year x, o_Customer_Type x)"

definition grouped :: "(order_row list \<Rightarrow> 'a) \<Rightarrow> order_row list \<Rightarrow> ((period \<times> string) \<times> 'a) list" where
  "grouped agg os = map (\<lambda>k. (k, agg (group_of cohort os k))) (group_keys cohort os)"

definition unstack :: "((period \<times> string) \<times> 'a) list \<Rightarrow> 'a \<Rightarrow> 'a matrix" where
  "unstack s fill_value =
     (let cs = group_keys (snd \<circ> fst) s in
      \<lparr>m_columns = cs,
       m_rows = map (\<lambda>m. (m, map (\<lambda>c. case map_of s (m, c) of None \<Rightarrow> fill_value | Some v \<Rightarrow> v) cs))
                  (group_keys (fst \<circ> fst) s)\<rparr>)"

text \<open>\<^verbatim>\<open>if col not in df.columns: df[col] = 0\<close>\<close>

definition ensure_column :: "string \<Rightarrow> 'a::zero matrix \<Rightarrow> 'a matrix" where
  "ensure_column col M =
     (if col \<in> set (m_columns M) then M
      else \<lparr>m_columns = m_columns M @ [col],
            m_rows = map (\<lambda>(m, vs). (m, vs @ [0])) (m_rows M)\<rparr>)"

definition ensure_columns :: "'a::zero matrix \<Rightarrow> 'a matrix" where
  "ensure_columns M = fold ensure_column [''First-time'', ''Repeat''] M"

text \<open>
  \<^verbatim>\<open>analyse_data\<close>. The dictionary passed to \<^verbatim>\<open>agg\<close> names four columns; a missing one is
  reported as \<^verbatim>\<open>KeyError\<close> (the model reports the first missing label). On a table
  without rows, \<^verbatim>\<open>DataFrame.apply(..., axis=1)\<close> returns a frame instead of a column, and
  assigning it to \<^verbatim>\<open>order_data['Customer Type']\<close> raises \<^verbatim>\<open>ValueError\<close>.
\<close>

definition analyse_data ::
  "frame \<Rightarrow> error + (nat matrix \<times> rat matrix \<times> order_row list \<times> frame)" where
  "analyse_data df =
     (if ''QTY'' \<notin> columns df then Inl (KeyError ''QTY'')
      else if ''Unit Price'' \<notin> columns df then Inl (KeyError ''Unit Price'')
      else
        let df1 = \<lparr>columns = insert ''Revenue'' (columns df), rows = set_Revenue (rows df)\<rparr>
        in
        if ''Order ID'' \<notin> columns df1 then Inl (KeyError ''Order ID'')
        else if ''Email'' \<notin> columns df1 then Inl (KeyError ''Email'')
        else if ''Date placed'' \<notin> columns df1 then Inl (KeyError ''Date placed'')
        else if ''Unit Cost'' \<notin> columns df1 then Inl (KeyError ''Unit Cost'')
        else
          let os = sorted_orders (rows df1);
              fpd = first_purchase_dates os
          in
          if os = [] then Inl ValueError
          else
            (case label_orders fpd os of
               Inl e \<Rightarrow> Inl e
             | Inr order_data \<Rightarrow>
                 Inr (ensure_columns (unstack (grouped length order_data) 0),
                      ensure_columns (unstack (grouped (\<lambda>g. sum_list (map o_Revenue g)) order_data) 0),
                      order_data,
                      df1)))"

section \<open>Product Performance Aggregator: \<^verbatim>\<open>analyse_product_sales\<close>\<close>

text \<open>
  A quotient of two float columns is NaN or infinite where the divisor is 0; the model
  writes \<open>None\<close> there.
\<close>

definition ratio :: "rat \<Rightarrow> rat \<Rightarrow> rat option" where
  "ratio a b = (if b = 0 then None else Some (a / b))"

record product_row =
  p_SKU :: string
  p_QTY :: int
  p_Revenue :: rat
  p_Profit :: rat
  p_Unit_Price :: rat
  p_Unit_Cost :: rat
  p_Profit_Margin :: "rat option"

definition mean :: "rat list \<Rightarrow> rat" where
  "mean xs = sum_list xs / of_nat (length xs)"

definition agg_product :: "line list \<Rightarrow> string \<Rightarrow> product_row" where
  "agg_product rs k =
     (let g = group_of SKU rs k;
          revenue = sum_list (map Revenue g);
          profit = sum_list (map Profit g)
      in
      \<lparr>p_SKU = k,
       p_QTY = sum_list (map QTY g),
       p_Revenue = revenue,
       p_Profit = profit,
       p_Unit_Price = mean (map Unit_Price g),
       p_Unit_Cost = mean (map Unit_Cost g),
       p_Profit_Margin = ratio profit revenue\<rparr>)"

definition analyse_product_sales :: "frame \<Rightarrow> error + (product_row list \<times> frame)" where
  "analyse_product_sales df =
     (if ''QTY'' \<notin> columns df then Inl (KeyError ''QTY'')
      else if ''Unit Price'' \<notin> columns df then Inl (KeyError ''Unit Price'')
      else if ''Unit Cost'' \<notin> columns df then Inl (KeyError ''Unit Cost'')
      else if ''Order ID'' \<notin> columns df then Inl (KeyError ''Order ID'')
      else
        let rs1 = set_Revenue (rows df);
            rs2 = set_Profit rs1;
            rs3 = set_Is_First_Item rs2;
            rs4 = add_fee_Revenue rs3;
            rs5 = add_fee_Profit rs4;
            df1 = \<lparr>columns = columns df \<union> {''Revenue'', ''Profit'', ''Is_First_Item''},
                   rows = rs5\<rparr>
        in
        if ''SKU'' \<notin> columns df1 then Inl (KeyError ''SKU'')
        else
          Inr (sort_key (\<lambda>p. - p_Revenue p) (map (agg_product rs5) (group_keys SKU rs5)), df1))"

section \<open>Monthly Profitability Aggregator: \<^verbatim>\<open>analyse_profitability_over_time\<close>\<close>

record month_row =
  m_Date_placed :: date
  m_Profit :: rat
  m_Revenue :: rat
  m_Cumulative_Profit :: rat

definition agg_month :: "line list \<Rightarrow> period \<Rightarrow> date \<times> rat \<times> rat" where
  "agg_month rs k =
     (let g = group_of (to_period \<circ> Date_placed) rs k in
      (to_timestamp k, sum_list (map Profit g), sum_list (map Revenue g)))"

definition with_cumulative :: "(date \<times> rat \<times> rat) list \<Rightarrow> month_row list" where
  "with_cumulative ms =
     map (\<lambda>((d, p, r), c). \<lparr>m_Date_placed = d, m_Profit = p, m_Revenue = r, m_Cumulative_Profit = c\<rparr>)
       (zip ms (cumsum (map (fst \<circ> snd) ms)))"

text \<open>
  The source assigns \<^verbatim>\<open>Profit\<close> and \<^verbatim>\<open>Is_First_Item\<close> afresh, but only adds to \<^verbatim>\<open>Revenue\<close>:
  \<^verbatim>\<open>df.loc[df['Is_First_Item'], 'Revenue'] += 15\<close> reads the column that is there.
\<close>

definition analyse_profitability_over_time :: "frame \<Rightarrow> error + (month_row list \<times> frame)" where
  "analyse_profitability_over_time df =
     (if ''Unit Price'' \<notin> columns df then Inl (KeyError ''Unit Price'')
      else if ''Unit Cost'' \<notin> columns df then Inl (KeyError ''Unit Cost'')
      else if ''QTY'' \<notin> columns df then Inl (KeyError ''QTY'')
      else if ''Order ID'' \<notin> columns df then Inl (KeyError ''Order ID'')
      else
        let rs1 = set_Profit (rows df);
            rs2 = set_Is_First_Item rs1;
            rs3 = add_fee_Profit rs2;
            cols = columns df \<union> {''Profit'', ''Is_First_Item''}
        in
        if ''Revenue'' \<notin> cols then Inl (KeyError ''Revenue'')
        else
          let rs4 = add_fee_Revenue rs3 in
          if ''Date placed'' \<notin> cols then Inl (KeyError ''Date placed'')
          else
            Inr (with_cumulative
                   (sort_key fst (map (agg_month rs4) (group_keys (to_period \<circ> Date_placed) rs4))),
                 \<lparr>columns = cols, rows = rs4\<rparr>))"

section \<open>Purchase-Affinity Analyzer: \<^verbatim>\<open>analyse_first_and_repeat_purchases\<close>\<close>

record affinity_row =
  f_SKU :: string
  First_Purchase_Count :: nat
  Repeat_Purchase_Count :: nat
  Repeat_to_First_Ratio :: "rat option"

text \<open>
  \<^verbatim>\<open>df.sort_values(['Email', 'Date placed'])\<close> with the column
  \<^verbatim>\<open>is_first_purchase = ~df_sorted['Email'].duplicated(keep='first')\<close> beside each row.
\<close>

definition df_sorted :: "line list \<Rightarrow> (line \<times> bool) list" where
  "df_sorted rs =
     (let s = sort_key (\<lambda>r. (Email r, Date_placed r)) rs in
      zip s (map Not (duplicated (map Email s))))"

text \<open>\<^verbatim>\<open>Series.value_counts().reset_index()\<close>: one row per value, most frequent first.\<close>

definition value_counts :: "string list \<Rightarrow> (string \<times> nat) list" where
  "value_counts xs =
     sort_key (\<lambda>(k, n). - int n) (map (\<lambda>k. (k, length (filter (\<lambda>x. x = k) xs))) (remdups xs))"

text \<open>\<^verbatim>\<open>pd.merge(..., on='SKU', how='outer').fillna(0)\<close> and the ratio column.\<close>

definition merge_outer :: "(string \<times> nat) list \<Rightarrow> (string \<times> nat) list \<Rightarrow> affinity_row list" where
  "merge_outer xs ys =
     map (\<lambda>k.
            let a = (case map_of xs k of None \<Rightarrow> 0 | Some n \<Rightarrow> n);
                b = (case map_of ys k of None \<Rightarrow> 0 | Some n \<Rightarrow> n)
            in \<lparr>f_SKU = k, First_Purchase_Count = a, Repeat_Purchase_Count = b,
                Repeat_to_First_Ratio = ratio (of_nat b) (of_nat a)\<rparr>)
       (sort (remdups (map fst xs @ map fst ys)))"

definition analyse_first_and_repeat_purchases :: "frame \<Rightarrow> error + affinity_row list" where
  "analyse_first_and_repeat_purchases df =
     (if ''Email'' \<notin> columns df then Inl (KeyError ''Email'')
      else if ''Date placed'' \<notin> columns df then Inl (KeyError ''Date placed'')
      else if ''SKU'' \<notin> columns df then Inl (KeyError ''SKU'')
      else
        let s = df_sorted (rows df);
            first_purchases = map fst (filter snd s);
            repeat_purchases = map fst (filter (\<lambda>x. \<not> snd x) s);
            first_purchase_counts = value_counts (map SKU first_purchases);
            repeat_purchase_counts = value_counts (map SKU repeat_purchases)
        in
        Inr (sort_key (\<lambda>a. - int (First_Purchase_Count a))
               (merge_outer first_purchase_counts repeat_purchase_counts)))"

section \<open>The pipeline of \<^verbatim>\<open>main\<close>\<close>

record analysis =
  count_data :: "nat matrix"
  revenue_data :: "rat matrix"
  order_data :: "order_row list"
  product_analysis :: "product_row list"
  profitability_data :: "month_row list"
  first_repeat_analysis :: "affinity_row list"

definition main :: "frame \<Rightarrow> error + analysis" where
  "main uploaded_file =
     (case load_data uploaded_file of
        Inl e \<Rightarrow> Inl e
      | Inr df \<Rightarrow>
     (case analyse_data df of
        Inl e \<Rightarrow> Inl e
      | Inr (cd, rd, od, df1) \<Rightarrow>
     (case analyse_product_sales df1 of
        Inl e \<Rightarrow> Inl e
      | Inr (pa, df2) \<Rightarrow>
     (case analyse_profitability_over_time df2 of
        Inl e \<Rightarrow> Inl e
      | Inr (pd, df3) \<Rightarrow>
     (case analyse_first_and_repeat_purchases df3 of
        Inl e \<Rightarrow> Inl e
      | Inr fr \<Rightarrow>
          Inr \<lparr>count_data = cd, revenue_data = rd, order_data = od,
               product_analysis = pa, profitability_data = pd,
               first_repeat_analysis = fr\<rparr>)))))"

section \<open>Closed forms and example tables\<close>

text \<open>
  \<open>order_data_of\<close> is \<^verbatim>\<open>order_data\<close> written without the error branches; \<open>analyse_data_eq\<close>
  below proves that \<^verbatim>\<open>analyse_data\<close> returns it.
\<close>

definition labelled :: "order_agg list \<Rightarrow> order_row list" where
  "labelled os = map (\<lambda>a. finish_order a (min_Date_placed os (a_Email a))) os"

definition order_data_of :: "line list \<Rightarrow> order_row list" where
  "order_data_of rs = labelled (sorted_orders (set_Revenue rs))"

text \<open>The columns that \<^verbatim>\<open>analyse_data\<close> reads.\<close>

definition order_columns :: "string set" where
  "order_columns = {''QTY'', ''Unit Price'', ''Order ID'', ''Email'', ''Date placed'', ''Unit Cost''}"

text \<open>
  A table as \<^verbatim>\<open>load_data\<close> returns it for a CSV with the eight columns of the input
  contract. The derived columns are not there yet: their cells hold 0 and are not read.
\<close>

definition csv_columns :: "string set" where
  "csv_columns = {''Order ID'', ''Email'', ''Date placed'', ''Date Completed'', ''SKU'',
                  ''QTY'', ''Unit Price'', ''Unit Cost''}"

definition csv_row :: "string \<Rightarrow> string \<Rightarrow> date \<Rightarrow> string \<Rightarrow> int \<Rightarrow> rat \<Rightarrow> rat \<Rightarrow> line" where
  "csv_row oid em d sku q p c =
     \<lparr>Order_ID = oid, Email = em, Date_placed = d, Date_Completed = d, SKU = sku,
      QTY = q, Unit_Price = p, Unit_Cost = c, Revenue = 0, Profit = 0, Is_First_Item = False\<rparr>"

definition csv_table :: "line list \<Rightarrow> frame" where
  "csv_table rs = \<lparr>columns = csv_columns, rows = rs\<rparr>"

text \<open>One order of two lines and a later order of one line, same customer.\<close>

definition two_orders :: frame where
  "two_orders = csv_table
     [csv_row ''O1'' ''a@x.com'' (2024, 1, 1) ''X1'' 1 100 40,
      csv_row ''O1'' ''a@x.com'' (2024, 1, 1) ''Y1'' 2 10 4,
      csv_row ''O2'' ''a@x.com'' (2024, 2, 1) ''X1'' 1 100 40]"

text \<open>Two orders of one customer, placed on the same date.\<close>

definition same_day_orders :: frame where
  "same_day_orders = csv_table
     [csv_row ''O1'' ''a@x.com'' (2024, 1, 1) ''X1'' 1 100 40,
      csv_row ''O2'' ''a@x.com'' (2024, 1, 1) ''X1'' 1 100 40]"

text \<open>A single order: only the category First-time occurs.\<close>

definition one_order :: frame where
  "one_order = csv_table [csv_row ''O1'' ''a@x.com'' (2024, 1, 1) ''X1'' 1 100 40]"

text \<open>The Order ID, Email and Customer Type columns of \<^verbatim>\<open>order_data\<close>.\<close>

definition customer_types :: "frame \<Rightarrow> error + (string \<times> string \<times> string) list" where
  "customer_types df =
     (case analyse_data df of
        Inl e \<Rightarrow> Inl e
      | Inr (cd, rd, od, df1) \<Rightarrow> Inr (map (\<lambda>x. (o_Order_ID x, o_Email x, o_Customer_Type x)) od))"

text \<open>The rows of \<^verbatim>\<open>df\<close> as \<^verbatim>\<open>analyse_product_sales\<close> leaves them, and the columns it reads.\<close>

definition product_rows :: "line list \<Rightarrow> line list" where
  "product_rows rs = add_fee_Profit (add_fee_Revenue (set_Is_First_Item (set_Profit (set_Revenue rs))))"

definition product_columns :: "string set" where
  "product_columns = {''QTY'', ''Unit Price'', ''Unit Cost'', ''Order ID'', ''SKU''}"

text \<open>The revenue of the lines themselves, without any fee.\<close>

definition line_revenue :: "line list \<Rightarrow> rat" where
  "line_revenue rs = (\<Sum>r\<leftarrow>rs. of_int (QTY r) * Unit_Price r)"

definition line_profit :: "line list \<Rightarrow> rat" where
  "line_profit rs = (\<Sum>r\<leftarrow>rs. (Unit_Price r - Unit_Cost r) * of_int (QTY r))"

text \<open>The number of distinct Order IDs.\<close>

definition distinct_orders :: "line list \<Rightarrow> nat" where
  "distinct_orders rs = card (Order_ID ` set rs)"

text \<open>
  The rows of \<^verbatim>\<open>df\<close> as \<^verbatim>\<open>analyse_profitability_over_time\<close> leaves them, its result
  without the error branches, and the columns it reads.
\<close>

definition month_rows :: "line list \<Rightarrow> line list" where
  "month_rows rs = add_fee_Revenue (add_fee_Profit (set_Is_First_Item (set_Profit rs)))"

definition months_of :: "line list \<Rightarrow> month_row list" where
  "months_of rs =
     with_cumulative
       (sort_key fst (map (agg_month (month_rows rs)) (group_keys (to_period \<circ> Date_placed) (month_rows rs))))"

definition monthly_columns :: "string set" where
  "monthly_columns = {''Unit Price'', ''Unit Cost'', ''QTY'', ''Order ID'', ''Revenue'', ''Date placed''}"

text \<open>The Revenue column of \<^verbatim>\<open>profitability_data\<close> after a run of \<^verbatim>\<open>main\<close>.\<close>

definition monthly_revenue :: "frame \<Rightarrow> error + rat list" where
  "monthly_revenue df =
     (case main df of Inl e \<Rightarrow> Inl e | Inr a \<Rightarrow> Inr (map m_Revenue (profitability_data a)))"



text \<open>The table \<open>two_orders\<close> as \<^verbatim>\<open>analyse_data\<close> leaves it.\<close>

definition two_orders_priced :: frame where
  "two_orders_priced =
     \<lparr>columns = insert ''Revenue'' (columns two_orders), rows = set_Revenue (rows two_orders)\<rparr>"

text \<open>
  The columns \<^verbatim>\<open>analyse_first_and_repeat_purchases\<close> reads, the SKU columns of its two
  subsets, and its result without the error branches.
\<close>

definition affinity_columns :: "string set" where
  "affinity_columns = {''Email'', ''Date placed'', ''SKU''}"

definition first_SKUs :: "line list \<Rightarrow> string list" where
  "first_SKUs rs = map SKU (map fst (filter snd (df_sorted rs)))"

definition repeat_SKUs :: "line list \<Rightarrow> string list" where
  "repeat_SKUs rs = map SKU (map fst (filter (\<lambda>x. \<not> snd x) (df_sorted rs)))"

definition affinity_of :: "line list \<Rightarrow> affinity_row list" where
  "affinity_of rs =
     sort_key (\<lambda>a. - int (First_Purchase_Count a))
       (merge_outer (value_counts (first_SKUs rs)) (value_counts (repeat_SKUs rs)))"

text \<open>One customer with a single order of two lines.\<close>

definition two_line_order :: frame where
  "two_line_order = csv_table
     [csv_row ''O1'' ''a@x.com'' (2024, 1, 1) ''X1'' 1 100 40,
      csv_row ''O1'' ''a@x.com'' (2024, 1, 1) ''Y1'' 2 10 4]"

text \<open>The SKU and the two count columns of \<^verbatim>\<open>purchase_analysis\<close>.\<close>

definition purchase_counts :: "frame \<Rightarrow> error + (string \<times> nat \<times> nat) list" where
  "purchase_counts df =
     (case analyse_first_and_repeat_purchases df of
        Inl e \<Rightarrow> Inl e
      | Inr fr \<Rightarrow> Inr (map (\<lambda>a. (f_SKU a, First_Purchase_Count a, Repeat_Purchase_Count a)) fr))"



section \<open>Lemmas on the pandas primitives\<close>

lemma set_group_keys: "set (group_keys f xs) = f ` set xs"
  by (simp add: group_keys_def)

lemma distinct_group_keys: "distinct (group_keys f xs)"
  by (simp add: group_keys_def)

lemma length_group_keys: "length (group_keys f xs) = card (f ` set xs)"
  by (metis distinct_card distinct_group_keys set_group_keys)

lemma filter_eq_distinct:
  "distinct ks \<Longrightarrow> k \<in> set ks \<Longrightarrow> filter (\<lambda>y. y = k) ks = [k]"
  by (induction ks) (auto simp: filter_empty_conv)

lemma sum_list_delta:
  fixes v :: "'b::comm_monoid_add"
  shows "distinct ks \<Longrightarrow> (\<Sum>k\<leftarrow>ks. if j = k then v else 0) = (if j \<in> set ks then v else 0)"
  by (induction ks) auto

lemma sum_list_groups:
  fixes g :: "'a \<Rightarrow> 'b::comm_monoid_add"
  assumes "distinct ks"
  shows "f ` set xs \<subseteq> set ks \<Longrightarrow> (\<Sum>k\<leftarrow>ks. sum_list (map g (group_of f xs k))) = sum_list (map g xs)"
proof (induction xs)
  case Nil
  then show ?case by (simp add: group_of_def)
next
  case (Cons x xs)
  have "(\<Sum>k\<leftarrow>ks. sum_list (map g (group_of f (x # xs) k)))
      = (\<Sum>k\<leftarrow>ks. (if f x = k then g x else 0) + sum_list (map g (group_of f xs k)))"
    by (rule arg_cong [where f = sum_list]) (simp add: group_of_def)
  also have "\<dots> = (\<Sum>k\<leftarrow>ks. if f x = k then g x else 0) + (\<Sum>k\<leftarrow>ks. sum_list (map g (group_of f xs k)))"
    by (simp add: sum_list_addf)
  also have "\<dots> = g x + sum_list (map g xs)"
    using Cons assms by (simp add: sum_list_delta)
  finally show ?case by simp
qed

lemma sum_list_group_keys:
  fixes g :: "'a \<Rightarrow> 'b::comm_monoid_add"
  shows "(\<Sum>k\<leftarrow>group_keys f xs. sum_list (map g (group_of f xs k))) = sum_list (map g xs)"
  by (rule sum_list_groups) (simp_all add: distinct_group_keys set_group_keys)

lemma length_duplicated_from: "length (duplicated_from seen xs) = length xs"
  by (induction xs arbitrary: seen) auto

lemma length_duplicated: "length (duplicated xs) = length xs"
  by (simp add: duplicated_def length_duplicated_from)

lemma count_first_from:
  "length (filter Not (duplicated_from seen xs)) = card (set xs - set seen)"
proof (induction xs arbitrary: seen)
  case Nil
  then show ?case by simp
next
  case (Cons x xs)
  let ?B = "set xs - insert x (set seen)"
  have ih: "length (filter Not (duplicated_from (x # seen) xs)) = card ?B"
    using Cons [of "x # seen"] by simp
  show ?case
  proof (cases "x \<in> set seen")
    case True
    then have "set (x # xs) - set seen = ?B" by auto
    then have "card (set (x # xs) - set seen) = card ?B" by (rule arg_cong)
    moreover have "length (filter Not (duplicated_from seen (x # xs))) = card ?B"
      using True by (simp only: duplicated_from.simps filter.simps ih simp_thms if_False)
    ultimately show ?thesis by simp
  next
    case False
    then have "set (x # xs) - set seen = insert x ?B" by auto
    then have "card (set (x # xs) - set seen) = card (insert x ?B)" by (rule arg_cong)
    also have "\<dots> = Suc (card ?B)"
      by (rule card_insert_disjoint) auto
    finally have c: "card (set (x # xs) - set seen) = Suc (card ?B)" .
    have "length (filter Not (duplicated_from seen (x # xs))) = Suc (card ?B)"
      using False by (simp only: duplicated_from.simps filter.simps ih simp_thms if_True list.size length_Cons)
    with c show ?thesis by simp
  qed
qed

lemma count_first: "length (filter Not (duplicated xs)) = card (set xs)"
  by (simp add: duplicated_def count_first_from)

lemma nth_duplicated_from:
  "i < length xs \<Longrightarrow> duplicated_from seen xs ! i \<longleftrightarrow> xs ! i \<in> set seen \<union> set (take i xs)"
proof (induction xs arbitrary: seen i)
  case Nil
  then show ?case by simp
next
  case (Cons x xs)
  show ?case
  proof (cases i)
    case 0
    then show ?thesis by simp
  next
    case (Suc j)
    with Cons.prems have "j < length xs" by simp
    from Cons.IH [OF this, of "x # seen"] Suc show ?thesis by auto
  qed
qed

lemma nth_duplicated:
  "i < length xs \<Longrightarrow> duplicated xs ! i \<longleftrightarrow> xs ! i \<in> set (take i xs)"
  by (simp add: duplicated_def nth_duplicated_from)

section \<open>The Order Aggregator\<close>

lemma label_orders_eq:
  "(\<And>a. a \<in> set as \<Longrightarrow> map_of fpd (a_Email a) = Some (d (a_Email a))) \<Longrightarrow>
   label_orders fpd as = Inr (map (\<lambda>a. finish_order a (d (a_Email a))) as)"
  by (induction as) simp_all

lemma map_of_first_purchase_dates:
  "map_of (first_purchase_dates os) e =
     (if e \<in> a_Email ` set os then Some (min_Date_placed os e) else None)"
  by (simp add: first_purchase_dates_def map_of_map_restrict set_group_keys restrict_map_def)

lemma label_orders_first_purchase_dates:
  "label_orders (first_purchase_dates os) os = Inr (labelled os)"
  unfolding labelled_def
  by (rule label_orders_eq) (simp add: map_of_first_purchase_dates)

lemma length_sorted_orders: "length (sorted_orders rs) = card (Order_ID ` set rs)"
  by (simp add: sorted_orders_def group_orders_def length_group_keys)

lemma sorted_orders_Nil: "sorted_orders rs = [] \<longleftrightarrow> rs = []"
proof -
  have "sorted_orders rs = [] \<longleftrightarrow> length (sorted_orders rs) = 0"
    by simp
  also have "\<dots> \<longleftrightarrow> card (Order_ID ` set rs) = 0"
    by (simp only: length_sorted_orders)
  also have "\<dots> \<longleftrightarrow> rs = []"
    by simp
  finally show ?thesis .
qed

lemma set_Revenue_Nil: "set_Revenue rs = [] \<longleftrightarrow> rs = []"
  by (simp add: set_Revenue_def)

lemma analyse_data_eq:
  assumes "order_columns \<subseteq> columns df" and "rows df \<noteq> []"
  shows "analyse_data df =
    Inr (ensure_columns (unstack (grouped length (order_data_of (rows df))) 0),
         ensure_columns (unstack (grouped (\<lambda>g. sum_list (map o_Revenue g)) (order_data_of (rows df))) 0),
         order_data_of (rows df),
         \<lparr>columns = insert ''Revenue'' (columns df), rows = set_Revenue (rows df)\<rparr>)"
  using assms
  by (simp add: analyse_data_def order_columns_def Let_def sorted_orders_Nil set_Revenue_Nil
      label_orders_first_purchase_dates order_data_of_def)

lemma analyse_data_empty:
  assumes "order_columns \<subseteq> columns df" and "rows df = []"
  shows "analyse_data df = Inl ValueError"
  using assms
  by (simp add: analyse_data_def order_columns_def Let_def sorted_orders_Nil set_Revenue_Nil)


lemma Order_ID_set_Revenue: "map Order_ID (set_Revenue rs) = map Order_ID rs"
  by (simp add: set_Revenue_def comp_def)

lemma group_keys_Order_ID_set_Revenue:
  "group_keys Order_ID (set_Revenue rs) = group_keys Order_ID rs"
  by (simp add: group_keys_def Order_ID_set_Revenue)








subsection \<open>Examples evaluated\<close>

lemma order_data_of_two_orders:
  "order_data_of (rows two_orders) =
     [\<lparr>o_Order_ID = ''O1'', o_Email = ''a@x.com'', o_Date_placed = (2024, 1, 1), o_Revenue = 135,
       o_Unit_Cost = 48, o_Profit = 87, o_Customer_Type = ''First-time'', o_Month_Year = (2024, 1)\<rparr>,
      \<lparr>o_Order_ID = ''O2'', o_Email = ''a@x.com'', o_Date_placed = (2024, 2, 1), o_Revenue = 115,
       o_Unit_Cost = 40, o_Profit = 75, o_Customer_Type = ''Repeat'', o_Month_Year = (2024, 2)\<rparr>]"
  by code_simp

lemma order_data_of_one_order:
  "order_data_of (rows one_order) =
     [\<lparr>o_Order_ID = ''O1'', o_Email = ''a@x.com'', o_Date_placed = (2024, 1, 1), o_Revenue = 115,
       o_Unit_Cost = 40, o_Profit = 75, o_Customer_Type = ''First-time'', o_Month_Year = (2024, 1)\<rparr>]"
  by code_simp

lemma columns_two_orders: "order_columns \<subseteq> columns two_orders"
  by (simp add: order_columns_def two_orders_def csv_table_def csv_columns_def)

lemma rows_two_orders: "rows two_orders \<noteq> []"
  by (simp add: two_orders_def csv_table_def)

lemma columns_one_order: "order_columns \<subseteq> columns one_order"
  by (simp add: order_columns_def one_order_def csv_table_def csv_columns_def)

lemma rows_one_order: "rows one_order \<noteq> []"
  by (simp add: one_order_def csv_table_def)

subsection \<open>Customer types\<close>

lemma min_Date_placed_Min:
  assumes "a \<in> set os"
  shows "min_Date_placed os (a_Email a) = Min (a_Date_placed ` {b \<in> set os. a_Email b = a_Email a})"
proof -
  have "group_of a_Email os (a_Email a) \<noteq> []"
    using assms by (auto simp: group_of_def filter_empty_conv)
  then have "min_Date_placed os (a_Email a)
      = Min (set (map a_Date_placed (group_of a_Email os (a_Email a))))"
    by (simp add: min_Date_placed_def min_list_Min)
  also have "set (map a_Date_placed (group_of a_Email os (a_Email a)))
      = a_Date_placed ` {b \<in> set os. a_Email b = a_Email a}"
    by (simp add: group_of_def)
  finally show ?thesis .
qed

lemma later_than_first:
  assumes "a \<in> set os"
  shows "min_Date_placed os (a_Email a) < a_Date_placed a \<longleftrightarrow>
         (\<exists>b\<in>set os. a_Email b = a_Email a \<and> a_Date_placed b < a_Date_placed a)"
proof -
  let ?S = "a_Date_placed ` {b \<in> set os. a_Email b = a_Email a}"
  have "finite ?S" by simp
  moreover have "?S \<noteq> {}" using assms by auto
  ultimately have "Min ?S < a_Date_placed a \<longleftrightarrow> (\<exists>d\<in>?S. d < a_Date_placed a)"
    by (rule Min_less_iff)
  then show ?thesis
    by (auto simp: min_Date_placed_Min [OF assms])
qed

lemma first_exists:
  assumes "a \<in> set os"
  shows "\<exists>b\<in>set os. a_Email b = a_Email a \<and> \<not> min_Date_placed os (a_Email b) < a_Date_placed b"
proof -
  let ?S = "a_Date_placed ` {b \<in> set os. a_Email b = a_Email a}"
  have "finite ?S" by simp
  moreover have "?S \<noteq> {}" using assms by auto
  ultimately have "Min ?S \<in> ?S" by (rule Min_in)
  then obtain b where b: "b \<in> set os" "a_Email b = a_Email a" "a_Date_placed b = Min ?S"
    by auto
  then have "min_Date_placed os (a_Email b) = a_Date_placed b"
    by (simp add: min_Date_placed_Min [OF assms])
  with b show ?thesis by auto
qed

lemma set_labelled:
  "set (labelled os) = (\<lambda>a. finish_order a (min_Date_placed os (a_Email a))) ` set os"
  by (simp add: labelled_def)

lemma labelled_Customer_Type:
  assumes "x \<in> set (labelled os)"
  shows "o_Customer_Type x =
     (if \<exists>y\<in>set (labelled os). o_Email y = o_Email x \<and> o_Date_placed y < o_Date_placed x
      then ''Repeat'' else ''First-time'')"
proof -
  from assms obtain a where a: "a \<in> set os" "x = finish_order a (min_Date_placed os (a_Email a))"
    by (auto simp: set_labelled)
  have "(\<exists>y\<in>set (labelled os). o_Email y = o_Email x \<and> o_Date_placed y < o_Date_placed x)
      \<longleftrightarrow> (\<exists>b\<in>set os. a_Email b = a_Email a \<and> a_Date_placed b < a_Date_placed a)"
    by (simp add: set_labelled a(2) finish_order_def)
  also have "\<dots> \<longleftrightarrow> min_Date_placed os (a_Email a) < a_Date_placed a"
    by (rule later_than_first [OF a(1), symmetric])
  finally show ?thesis
    by (simp add: a(2) finish_order_def)
qed

lemma labelled_has_First_time:
  assumes "x \<in> set (labelled os)"
  shows "\<exists>y\<in>set (labelled os). o_Email y = o_Email x \<and> o_Customer_Type y = ''First-time''"
proof -
  from assms obtain a where a: "a \<in> set os" "x = finish_order a (min_Date_placed os (a_Email a))"
    by (auto simp: set_labelled)
  from first_exists [OF a(1)] obtain b where
    b: "b \<in> set os" "a_Email b = a_Email a" "\<not> min_Date_placed os (a_Email b) < a_Date_placed b"
    by blast
  let ?y = "finish_order b (min_Date_placed os (a_Email b))"
  have "?y \<in> set (labelled os)" using b(1) by (simp add: set_labelled)
  moreover have "o_Email ?y = o_Email x" using b(2) by (simp add: a(2) finish_order_def)
  moreover have "o_Customer_Type ?y = ''First-time''" using b(3) by (simp add: finish_order_def)
  ultimately show ?thesis by blast
qed

lemma distinct_map_sort_key:
  assumes "distinct (map g xs)"
  shows "distinct (map g (sort_key f xs))"
proof -
  from assms have "distinct xs" and "inj_on g (set xs)"
    by (simp_all add: distinct_map)
  then have "distinct (sort_key f xs)" and "inj_on g (set (sort_key f xs))"
    by simp_all
  then show ?thesis
    by (simp only: distinct_map simp_thms)
qed

lemma distinct_sorted_orders: "distinct (map a_Order_ID (sorted_orders rs))"
proof -
  have "map a_Order_ID (map add_shipping (group_orders rs)) = group_keys Order_ID rs"
    by (simp add: group_orders_def comp_def add_shipping_def agg_order_def Let_def)
  then have "distinct (map a_Order_ID (map add_shipping (group_orders rs)))"
    by (simp only: distinct_group_keys)
  then show ?thesis
    unfolding sorted_orders_def by (rule distinct_map_sort_key)
qed

lemma distinct_labelled:
  assumes "distinct (map a_Order_ID os)"
  shows "distinct (labelled os)"
proof -
  have "map o_Order_ID (labelled os) = map a_Order_ID os"
    by (simp add: labelled_def comp_def finish_order_def)
  with assms have "distinct (map o_Order_ID (labelled os))" by simp
  then show ?thesis by (simp add: distinct_map)
qed

lemma distinct_order_data_of: "distinct (order_data_of rs)"
  unfolding order_data_of_def by (rule distinct_labelled) (rule distinct_sorted_orders)

lemma labelled_one_First_time:
  assumes e: "e \<in> o_Email ` set (labelled os)"
    and d: "distinct (labelled os)"
    and u: "\<And>x y. x \<in> set (labelled os) \<Longrightarrow> y \<in> set (labelled os) \<Longrightarrow>
              o_Email x = e \<Longrightarrow> o_Email y = e \<Longrightarrow> o_Date_placed x = o_Date_placed y \<Longrightarrow> x = y"
  shows "length (filter (\<lambda>x. o_Email x = e \<and> o_Customer_Type x = ''First-time'') (labelled os)) = 1"
proof -
  let ?P = "\<lambda>x. o_Email x = e \<and> o_Customer_Type x = ''First-time''"
  let ?F = "{x. ?P x} \<inter> set (labelled os)"
  from e labelled_has_First_time obtain z where z: "z \<in> set (labelled os)" "?P z"
    by fastforce
  have "x = z" if "x \<in> ?F" for x
  proof -
    from that have x: "x \<in> set (labelled os)" "o_Email x = e" "o_Customer_Type x = ''First-time''"
      by simp_all
    have "\<not> o_Date_placed z < o_Date_placed x"
      using labelled_Customer_Type [OF x(1)] x z by (auto split: if_splits)
    moreover have "\<not> o_Date_placed x < o_Date_placed z"
      using labelled_Customer_Type [OF z(1)] x z by (auto split: if_splits)
    ultimately have "o_Date_placed x = o_Date_placed z" by simp
    with u x z show ?thesis by blast
  qed
  with z have "?F = {z}" by blast
  moreover have "length (filter ?P (labelled os)) = card ?F"
    using d by (rule distinct_length_filter)
  ultimately show ?thesis by simp
qed

text \<open>
  Claim C4, amended. On a table with the columns \<^verbatim>\<open>analyse_data\<close> reads and at least one
  row, an order row is Repeat exactly when another order row of the same Email has a
  strictly earlier Date placed, and First-time otherwise: the First-time rows of an Email
  are those on its earliest date. Every Email of an order row has at least one
  First-time row, and exactly one when no two of its orders share a date.
\<close>

theorem C4_first_time_is_earliest_date:
  assumes "order_columns \<subseteq> columns df" and "rows df \<noteq> []"
  shows "\<exists>cd rd od df1.
           analyse_data df = Inr (cd, rd, od, df1) \<and>
           (\<forall>x\<in>set od. o_Customer_Type x =
              (if \<exists>y\<in>set od. o_Email y = o_Email x \<and> o_Date_placed y < o_Date_placed x
               then ''Repeat'' else ''First-time'')) \<and>
           (\<forall>x\<in>set od. \<exists>y\<in>set od. o_Email y = o_Email x \<and> o_Customer_Type y = ''First-time'') \<and>
           (\<forall>e\<in>o_Email ` set od.
              (\<forall>x\<in>set od. \<forall>y\<in>set od.
                 o_Email x = e \<and> o_Email y = e \<and> o_Date_placed x = o_Date_placed y \<longrightarrow> x = y) \<longrightarrow>
              length (filter (\<lambda>x. o_Email x = e \<and> o_Customer_Type x = ''First-time'') od) = 1)"
proof -
  let ?od = "order_data_of (rows df)"
  have 1: "\<forall>x\<in>set ?od. o_Customer_Type x =
              (if \<exists>y\<in>set ?od. o_Email y = o_Email x \<and> o_Date_placed y < o_Date_placed x
               then ''Repeat'' else ''First-time'')"
    unfolding order_data_of_def by (rule ballI) (rule labelled_Customer_Type)
  have 2: "\<forall>x\<in>set ?od. \<exists>y\<in>set ?od. o_Email y = o_Email x \<and> o_Customer_Type y = ''First-time''"
    unfolding order_data_of_def by (rule ballI) (rule labelled_has_First_time)
  have 3: "\<forall>e\<in>o_Email ` set ?od.
              (\<forall>x\<in>set ?od. \<forall>y\<in>set ?od.
                 o_Email x = e \<and> o_Email y = e \<and> o_Date_placed x = o_Date_placed y \<longrightarrow> x = y) \<longrightarrow>
              length (filter (\<lambda>x. o_Email x = e \<and> o_Customer_Type x = ''First-time'') ?od) = 1"
  proof (intro ballI impI)
    fix e
    assume e: "e \<in> o_Email ` set ?od"
      and u: "\<forall>x\<in>set ?od. \<forall>y\<in>set ?od.
                 o_Email x = e \<and> o_Email y = e \<and> o_Date_placed x = o_Date_placed y \<longrightarrow> x = y"
    show "length (filter (\<lambda>x. o_Email x = e \<and> o_Customer_Type x = ''First-time'') ?od) = 1"
      unfolding order_data_of_def
    proof (rule labelled_one_First_time)
      show "e \<in> o_Email ` set (labelled (sorted_orders (set_Revenue (rows df))))"
        using e by (simp only: order_data_of_def)
      show "distinct (labelled (sorted_orders (set_Revenue (rows df))))"
        using distinct_order_data_of [of "rows df"] by (simp only: order_data_of_def)
    next
      fix x y
      assume "x \<in> set (labelled (sorted_orders (set_Revenue (rows df))))"
        "y \<in> set (labelled (sorted_orders (set_Revenue (rows df))))"
        "o_Email x = e" "o_Email y = e" "o_Date_placed x = o_Date_placed y"
      with u show "x = y" by (simp add: order_data_of_def)
    qed
  qed
  from analyse_data_eq [OF assms] 1 2 3 show ?thesis
    by blast
qed

theorem C4_first_time_is_earliest_date_witness:
  "order_columns \<subseteq> columns two_orders \<and> rows two_orders \<noteq> [] \<and>
   (\<exists>cd rd od df1.
      analyse_data two_orders = Inr (cd, rd, od, df1) \<and>
      map o_Customer_Type od = [''First-time'', ''Repeat''] \<and>
      length (filter (\<lambda>x. o_Email x = ''a@x.com'' \<and> o_Customer_Type x = ''First-time'') od) = 1)"
proof -
  from C4_first_time_is_earliest_date [OF columns_two_orders rows_two_orders]
  obtain cd rd od df1 where r: "analyse_data two_orders = Inr (cd, rd, od, df1)"
    and u: "\<forall>e\<in>o_Email ` set od.
              (\<forall>x\<in>set od. \<forall>y\<in>set od.
                 o_Email x = e \<and> o_Email y = e \<and> o_Date_placed x = o_Date_placed y \<longrightarrow> x = y) \<longrightarrow>
              length (filter (\<lambda>x. o_Email x = e \<and> o_Customer_Type x = ''First-time'') od) = 1"
    by (elim exE conjE)
  from r analyse_data_eq [OF columns_two_orders rows_two_orders]
  have od: "od = order_data_of (rows two_orders)" by simp
  have e: "''a@x.com'' \<in> o_Email ` set od"
    by (simp add: od order_data_of_two_orders)
  have d: "\<forall>x\<in>set od. \<forall>y\<in>set od.
             o_Email x = ''a@x.com'' \<and> o_Email y = ''a@x.com'' \<and> o_Date_placed x = o_Date_placed y \<longrightarrow> x = y"
    by (simp add: od order_data_of_two_orders)
  from u e d have n: "length (filter (\<lambda>x. o_Email x = ''a@x.com'' \<and> o_Customer_Type x = ''First-time'') od) = 1"
    by blast
  have t: "map o_Customer_Type od = [''First-time'', ''Repeat'']"
    by (simp add: od order_data_of_two_orders)
  from columns_two_orders rows_two_orders r t n show ?thesis
    by (intro conjI exI [of _ cd] exI [of _ rd] exI [of _ od] exI [of _ df1])
qed

text \<open>
  Claim C4 as stated fails: two orders of one customer on the same date are both
  First-time.
\<close>

theorem C4_counterexample:
  "customer_types same_day_orders =
     Inr [(''O1'', ''a@x.com'', ''First-time''), (''O2'', ''a@x.com'', ''First-time'')]"
  by code_simp

section \<open>The Cohort Summarizer\<close>

lemma map_of_keyed:
  "map_of (map (\<lambda>k. (k, f k)) ks) k = (if k \<in> set ks then Some (f k) else None)"
  by (induction ks) auto

lemma map_of_grouped:
  "map_of (grouped agg os) k =
     (if k \<in> cohort ` set os then Some (agg (group_of cohort os k)) else None)"
  by (simp add: grouped_def map_of_keyed set_group_keys)

lemma keys_grouped: "map fst (grouped agg os) = group_keys cohort os"
  by (simp add: grouped_def comp_def)

lemma columns_unstack: "set (m_columns (unstack s z)) = (snd \<circ> fst) ` set s"
  by (simp add: unstack_def Let_def set_group_keys)

lemma rows_unstack: "map fst (m_rows (unstack s z)) = group_keys (fst \<circ> fst) s"
  by (simp add: unstack_def Let_def comp_def)

lemma wf_unstack:
  "(m, vs) \<in> set (m_rows (unstack s z)) \<Longrightarrow> length vs = length (m_columns (unstack s z))"
  by (auto simp: unstack_def Let_def)

lemma cell_unstack:
  "cell (unstack s z) m c =
     (if m \<in> (fst \<circ> fst) ` set s \<and> c \<in> (snd \<circ> fst) ` set s
      then Some (case map_of s (m, c) of None \<Rightarrow> z | Some v \<Rightarrow> v) else None)"
  by (simp add: cell_def unstack_def Let_def map_of_keyed map_of_zip_map set_group_keys)

lemma columns_ensure_column:
  "set (m_columns (ensure_column col M)) = insert col (set (m_columns M))"
  by (auto simp: ensure_column_def)

lemma rows_ensure_column: "map fst (m_rows (ensure_column col M)) = map fst (m_rows M)"
  by (simp add: ensure_column_def comp_def case_prod_unfold)

lemma wf_ensure_column:
  assumes "\<And>m vs. (m, vs) \<in> set (m_rows M) \<Longrightarrow> length vs = length (m_columns M)"
    and "(m, vs) \<in> set (m_rows (ensure_column col M))"
  shows "length vs = length (m_columns (ensure_column col M))"
  using assms by (auto simp: ensure_column_def split: if_splits)

lemma map_of_snoc_rows:
  "map_of (map (\<lambda>(m, vs). (m, vs @ [z])) rs) m = map_option (\<lambda>vs. vs @ [z]) (map_of rs m)"
  by (induction rs) auto

lemma map_of_zip_snoc:
  assumes "length cs = length vs"
  shows "map_of (zip (cs @ [col]) (vs @ [z])) c =
     (case map_of (zip cs vs) c of Some v \<Rightarrow> Some v | None \<Rightarrow> if c = col then Some z else None)"
  using assms by (induction cs vs rule: list_induct2) auto

lemma cell_ensure_column:
  assumes wf: "\<And>m vs. (m, vs) \<in> set (m_rows M) \<Longrightarrow> length vs = length (m_columns M)"
  shows "cell (ensure_column col M) m c =
     (if c = col \<and> col \<notin> set (m_columns M)
      then (case map_of (m_rows M) m of None \<Rightarrow> None | Some vs \<Rightarrow> Some 0)
      else cell M m c)"
proof (cases "col \<in> set (m_columns M)")
  case True
  then show ?thesis by (simp add: ensure_column_def)
next
  case False
  show ?thesis
  proof (cases "map_of (m_rows M) m")
    case None
    with False show ?thesis
      by (simp add: ensure_column_def cell_def map_of_snoc_rows)
  next
    case (Some vs)
    then have "(m, vs) \<in> set (m_rows M)" by (rule map_of_SomeD)
    then have len: "length (m_columns M) = length vs" by (simp add: wf)
    have none: "map_of (zip (m_columns M) vs) col = None"
      using False len by (simp add: map_of_zip_is_None)
    have "cell (ensure_column col M) m c = map_of (zip (m_columns M @ [col]) (vs @ [0])) c"
      using False Some by (simp add: ensure_column_def cell_def map_of_snoc_rows del: zip_append)
    also have "\<dots> = (case map_of (zip (m_columns M) vs) c of
                         Some v \<Rightarrow> Some v | None \<Rightarrow> if c = col then Some 0 else None)"
      by (rule map_of_zip_snoc [OF len])
    finally have e: "cell (ensure_column col M) m c =
        (case map_of (zip (m_columns M) vs) c of
           Some v \<Rightarrow> Some v | None \<Rightarrow> if c = col then Some 0 else None)" .
    show ?thesis
    proof (cases "c = col")
      case True
      with False Some none e show ?thesis by simp
    next
      case c: False
      with False Some e show ?thesis
        by (simp add: cell_def split: option.splits)
    qed
  qed
qed

lemma ensure_columns_eq:
  "ensure_columns M = ensure_column ''Repeat'' (ensure_column ''First-time'' M)"
  by (simp add: ensure_columns_def)

lemma columns_ensure_columns:
  "set (m_columns (ensure_columns M)) = insert ''Repeat'' (insert ''First-time'' (set (m_columns M)))"
  by (simp only: ensure_columns_eq columns_ensure_column)

lemma rows_ensure_columns: "map fst (m_rows (ensure_columns M)) = map fst (m_rows M)"
  by (simp only: ensure_columns_eq rows_ensure_column)

lemma map_of_rows_cases:
  "(case map_of rs m of None \<Rightarrow> None | Some vs \<Rightarrow> Some z) =
     (if m \<in> set (map fst rs) then Some z else None)"
proof (cases "map_of rs m")
  case None
  then have "m \<notin> fst ` set rs" by (simp add: map_of_eq_None_iff)
  with None show ?thesis by simp
next
  case (Some vs)
  then have "(m, vs) \<in> set rs" by (rule map_of_SomeD)
  then have "m \<in> fst ` set rs" by force
  with Some show ?thesis by simp
qed

lemma cell_ensure_columns_unstack:
  assumes m: "m \<in> (fst \<circ> fst) ` set s"
    and c: "c = ''First-time'' \<or> c = ''Repeat''"
  shows "cell (ensure_columns (unstack s 0)) m c =
           Some (case map_of s (m, c) of None \<Rightarrow> 0 | Some v \<Rightarrow> v)"
proof -
  let ?M0 = "unstack s 0"
  let ?M1 = "ensure_column ''First-time'' ?M0"
  have wf0: "\<And>m vs. (m, vs) \<in> set (m_rows ?M0) \<Longrightarrow> length vs = length (m_columns ?M0)"
    by (rule wf_unstack)
  have wf1: "\<And>m vs. (m, vs) \<in> set (m_rows ?M1) \<Longrightarrow> length vs = length (m_columns ?M1)"
    by (rule wf_ensure_column [OF wf0])
  have r0: "m \<in> set (map fst (m_rows ?M0))"
    using m by (simp only: rows_unstack set_group_keys)
  then have r1: "m \<in> set (map fst (m_rows ?M1))"
    by (simp only: rows_ensure_column)
  have absent: "map_of s (m, c) = None" if "c \<notin> set (m_columns ?M0)"
  proof -
    from that have "(m, c) \<notin> fst ` set s"
      by (force simp: columns_unstack)
    then show ?thesis by (simp add: map_of_eq_None_iff)
  qed
  have c0: "cell ?M0 m c =
      (if c \<in> set (m_columns ?M0) then Some (case map_of s (m, c) of None \<Rightarrow> 0 | Some v \<Rightarrow> v) else None)"
    using m by (simp add: cell_unstack columns_unstack)
  have c1: "cell ?M1 m c = Some (case map_of s (m, c) of None \<Rightarrow> 0 | Some v \<Rightarrow> v)"
    if "c \<in> set (m_columns ?M1)"
    using that r0 absent
    by (auto simp: cell_ensure_column [OF wf0] map_of_rows_cases c0 columns_ensure_column)
  have "cell (ensure_column ''Repeat'' ?M1) m c = Some (case map_of s (m, c) of None \<Rightarrow> 0 | Some v \<Rightarrow> v)"
  proof (cases "c \<in> set (m_columns ?M1)")
    case True
    then show ?thesis
      by (auto simp: cell_ensure_column [OF wf1] c1)
  next
    case False
    with c have cr: "c = ''Repeat''" by (auto simp: columns_ensure_column)
    from False have "c \<notin> set (m_columns ?M0)" by (simp add: columns_ensure_column)
    then have "map_of s (m, c) = None" by (rule absent)
    with False cr r1 show ?thesis
      by (simp add: cell_ensure_column [OF wf1] map_of_rows_cases)
  qed
  then show ?thesis by (simp only: ensure_columns_eq)
qed

lemma group_of_cohort:
  "group_of cohort os (m, c) = filter (\<lambda>x. o_Month_Year x = m \<and> o_Customer_Type x = c) os"
  by (simp add: group_of_def cohort_def)

lemma cell_cohort:
  assumes m: "m \<in> o_Month_Year ` set os"
    and c: "c = ''First-time'' \<or> c = ''Repeat''"
    and z: "agg [] = 0"
  shows "cell (ensure_columns (unstack (grouped agg os) 0)) m c =
           Some (agg (filter (\<lambda>x. o_Month_Year x = m \<and> o_Customer_Type x = c) os))"
proof -
  have "(fst \<circ> fst) ` set (grouped agg os) = fst ` set (map fst (grouped agg os))"
    by (simp add: image_image)
  also have "\<dots> = o_Month_Year ` set os"
    by (simp add: keys_grouped set_group_keys image_image cohort_def)
  finally have "m \<in> (fst \<circ> fst) ` set (grouped agg os)" using m by simp
  from cell_ensure_columns_unstack [OF this c]
  have "cell (ensure_columns (unstack (grouped agg os) 0)) m c =
      Some (case map_of (grouped agg os) (m, c) of None \<Rightarrow> 0 | Some v \<Rightarrow> v)" .
  also have "(case map_of (grouped agg os) (m, c) of None \<Rightarrow> 0 | Some v \<Rightarrow> v)
      = agg (group_of cohort os (m, c))"
  proof (cases "(m, c) \<in> cohort ` set os")
    case True
    then show ?thesis by (simp add: map_of_grouped)
  next
    case False
    then have "\<forall>x\<in>set os. cohort x \<noteq> (m, c)"
      by force
    then have "group_of cohort os (m, c) = []"
      by (simp add: group_of_def filter_empty_conv)
    with False z show ?thesis by (simp add: map_of_grouped)
  qed
  finally show ?thesis by (simp only: group_of_cohort)
qed

lemma months_cohort:
  "fst ` set (m_rows (ensure_columns (unstack (grouped agg os) 0))) = o_Month_Year ` set os"
proof -
  have "fst ` set (m_rows (ensure_columns (unstack (grouped agg os) 0)))
      = set (map fst (m_rows (ensure_columns (unstack (grouped agg os) 0))))"
    by simp
  also have "\<dots> = (fst \<circ> fst) ` set (grouped agg os)"
    by (simp only: rows_ensure_columns rows_unstack set_group_keys)
  also have "\<dots> = fst ` set (map fst (grouped agg os))"
    by (simp add: image_image)
  also have "\<dots> = o_Month_Year ` set os"
    by (simp add: keys_grouped set_group_keys image_image cohort_def)
  finally show ?thesis .
qed

text \<open>
  Claim C8. On a table with the columns \<^verbatim>\<open>analyse_data\<close> reads and at least one row, the
  count matrix and the revenue matrix both have a First-time and a Repeat column and one
  row per month of \<^verbatim>\<open>order_data\<close>; the cell of a month and a category is the number,
  respectively the summed Revenue, of the orders of that month and category, so it is 0
  where there is none.
\<close>

theorem C8_both_columns_zero_filled:
  assumes "order_columns \<subseteq> columns df" and "rows df \<noteq> []"
  shows "\<exists>cd rd od df1.
           analyse_data df = Inr (cd, rd, od, df1) \<and>
           ''First-time'' \<in> set (m_columns cd) \<and> ''Repeat'' \<in> set (m_columns cd) \<and>
           ''First-time'' \<in> set (m_columns rd) \<and> ''Repeat'' \<in> set (m_columns rd) \<and>
           fst ` set (m_rows cd) = o_Month_Year ` set od \<and>
           fst ` set (m_rows rd) = o_Month_Year ` set od \<and>
           (\<forall>m\<in>o_Month_Year ` set od. \<forall>c\<in>{''First-time'', ''Repeat''}.
              cell cd m c = Some (length (filter (\<lambda>x. o_Month_Year x = m \<and> o_Customer_Type x = c) od)) \<and>
              cell rd m c = Some (\<Sum>x\<leftarrow>filter (\<lambda>x. o_Month_Year x = m \<and> o_Customer_Type x = c) od. o_Revenue x) \<and>
              ((\<forall>x\<in>set od. \<not> (o_Month_Year x = m \<and> o_Customer_Type x = c)) \<longrightarrow>
                 cell cd m c = Some 0 \<and> cell rd m c = Some 0))"
proof -
  let ?od = "order_data_of (rows df)"
  let ?cd = "ensure_columns (unstack (grouped length ?od) 0)"
  let ?rd = "ensure_columns (unstack (grouped (\<lambda>g. sum_list (map o_Revenue g)) ?od) 0)"
  have cols: "''First-time'' \<in> set (m_columns ?cd)" "''Repeat'' \<in> set (m_columns ?cd)"
    "''First-time'' \<in> set (m_columns ?rd)" "''Repeat'' \<in> set (m_columns ?rd)"
    by (simp_all only: columns_ensure_columns insert_iff simp_thms)
  have months: "fst ` set (m_rows ?cd) = o_Month_Year ` set ?od"
    "fst ` set (m_rows ?rd) = o_Month_Year ` set ?od"
    by (rule months_cohort)+
  have cells: "\<forall>m\<in>o_Month_Year ` set ?od. \<forall>c\<in>{''First-time'', ''Repeat''}.
      cell ?cd m c = Some (length (filter (\<lambda>x. o_Month_Year x = m \<and> o_Customer_Type x = c) ?od)) \<and>
      cell ?rd m c = Some (\<Sum>x\<leftarrow>filter (\<lambda>x. o_Month_Year x = m \<and> o_Customer_Type x = c) ?od. o_Revenue x) \<and>
      ((\<forall>x\<in>set ?od. \<not> (o_Month_Year x = m \<and> o_Customer_Type x = c)) \<longrightarrow>
         cell ?cd m c = Some 0 \<and> cell ?rd m c = Some 0)"
  proof (intro ballI)
    fix m c
    assume m: "m \<in> o_Month_Year ` set ?od" and "c \<in> {''First-time'', ''Repeat''}"
    then have c: "c = ''First-time'' \<or> c = ''Repeat''" by simp
    let ?g = "filter (\<lambda>x. o_Month_Year x = m \<and> o_Customer_Type x = c) ?od"
    have 1: "cell ?cd m c = Some (length ?g)"
      by (rule cell_cohort [OF m c]) simp
    have 2: "cell ?rd m c = Some (\<Sum>x\<leftarrow>?g. o_Revenue x)"
      by (rule cell_cohort [OF m c]) simp
    have 3: "?g = []" if "\<forall>x\<in>set ?od. \<not> (o_Month_Year x = m \<and> o_Customer_Type x = c)"
      using that by (simp add: filter_empty_conv)
    from 1 2 3 show "cell ?cd m c = Some (length ?g) \<and> cell ?rd m c = Some (\<Sum>x\<leftarrow>?g. o_Revenue x) \<and>
      ((\<forall>x\<in>set ?od. \<not> (o_Month_Year x = m \<and> o_Customer_Type x = c)) \<longrightarrow>
         cell ?cd m c = Some 0 \<and> cell ?rd m c = Some 0)"
      by simp
  qed
  from analyse_data_eq [OF assms] cols months cells show ?thesis
    by blast
qed

theorem C8_both_columns_zero_filled_witness:
  "order_columns \<subseteq> columns one_order \<and> rows one_order \<noteq> [] \<and>
   (\<exists>cd rd od df1.
      analyse_data one_order = Inr (cd, rd, od, df1) \<and>
      map o_Customer_Type od = [''First-time''] \<and>
      ''Repeat'' \<in> set (m_columns cd) \<and> ''Repeat'' \<in> set (m_columns rd) \<and>
      cell cd (2024, 1) ''First-time'' = Some 1 \<and> cell cd (2024, 1) ''Repeat'' = Some 0 \<and>
      cell rd (2024, 1) ''First-time'' = Some 115 \<and> cell rd (2024, 1) ''Repeat'' = Some 0)"
proof -
  from C8_both_columns_zero_filled [OF columns_one_order rows_one_order]
  obtain cd rd od df1 where r: "analyse_data one_order = Inr (cd, rd, od, df1)"
    and cols: "''Repeat'' \<in> set (m_columns cd)" "''Repeat'' \<in> set (m_columns rd)"
    and cells: "\<forall>m\<in>o_Month_Year ` set od. \<forall>c\<in>{''First-time'', ''Repeat''}.
              cell cd m c = Some (length (filter (\<lambda>x. o_Month_Year x = m \<and> o_Customer_Type x = c) od)) \<and>
              cell rd m c = Some (\<Sum>x\<leftarrow>filter (\<lambda>x. o_Month_Year x = m \<and> o_Customer_Type x = c) od. o_Revenue x) \<and>
              ((\<forall>x\<in>set od. \<not> (o_Month_Year x = m \<and> o_Customer_Type x = c)) \<longrightarrow>
                 cell cd m c = Some 0 \<and> cell rd m c = Some 0)"
    by (elim exE conjE)
  from r analyse_data_eq [OF columns_one_order rows_one_order]
  have od: "od = order_data_of (rows one_order)" by simp
  have m: "(2024, 1) \<in> o_Month_Year ` set od"
    by (simp add: od order_data_of_one_order)
  from cells m have
    "\<forall>c\<in>{''First-time'', ''Repeat''}.
       cell cd (2024, 1) c = Some (length (filter (\<lambda>x. o_Month_Year x = (2024, 1) \<and> o_Customer_Type x = c) od)) \<and>
       cell rd (2024, 1) c = Some (\<Sum>x\<leftarrow>filter (\<lambda>x. o_Month_Year x = (2024, 1) \<and> o_Customer_Type x = c) od. o_Revenue x)"
    by blast
  then have c: "cell cd (2024, 1) ''First-time'' = Some 1" "cell cd (2024, 1) ''Repeat'' = Some 0"
      "cell rd (2024, 1) ''First-time'' = Some 115" "cell rd (2024, 1) ''Repeat'' = Some 0"
    by (simp_all add: od order_data_of_one_order)
  have t: "map o_Customer_Type od = [''First-time'']"
    by (simp add: od order_data_of_one_order)
  from columns_one_order rows_one_order r t cols c show ?thesis
    by (intro conjI exI [of _ cd] exI [of _ rd] exI [of _ od] exI [of _ df1])
qed

section \<open>The Product Performance Aggregator\<close>

lemma sum_list_insort_key:
  fixes g :: "'a \<Rightarrow> 'b::comm_monoid_add"
  shows "sum_list (map g (insort_key f x xs)) = g x + sum_list (map g xs)"
  by (induction xs) (simp_all add: add.left_commute)

lemma sum_list_sort_key:
  fixes g :: "'a \<Rightarrow> 'b::comm_monoid_add"
  shows "sum_list (map g (sort_key f xs)) = sum_list (map g xs)"
  by (induction xs) (simp_all add: sum_list_insort_key)

lemma map_set_Is_First_Item:
  assumes "\<And>r b. f (r\<lparr>Is_First_Item := b\<rparr>) = f r"
  shows "map f (set_Is_First_Item rs) = map f rs"
proof -
  have "map f (set_Is_First_Item rs) = map (f \<circ> fst) (zip rs (duplicated (map Order_ID rs)))"
    by (simp add: set_Is_First_Item_def comp_def case_prod_unfold assms)
  also have "\<dots> = map f (map fst (zip rs (duplicated (map Order_ID rs))))"
    by simp
  also have "\<dots> = map f rs"
    by (simp only: map_fst_zip length_duplicated length_map)
  finally show ?thesis .
qed

lemma Is_First_Item_set_Is_First_Item:
  "map Is_First_Item (set_Is_First_Item rs) = map Not (duplicated (map Order_ID rs))"
proof -
  have "map Is_First_Item (set_Is_First_Item rs) = map (Not \<circ> snd) (zip rs (duplicated (map Order_ID rs)))"
    by (simp add: set_Is_First_Item_def comp_def case_prod_unfold)
  also have "\<dots> = map Not (map snd (zip rs (duplicated (map Order_ID rs))))"
    by simp
  also have "\<dots> = map Not (duplicated (map Order_ID rs))"
    by (simp only: map_snd_zip length_duplicated length_map)
  finally show ?thesis .
qed

lemma length_filter_map: "length (filter P xs) = length (filter id (map P xs))"
  by (induction xs) auto

lemma count_Is_First_Item:
  "length (filter Is_First_Item (set_Is_First_Item rs)) = card (Order_ID ` set rs)"
proof -
  have "length (filter Is_First_Item (set_Is_First_Item rs))
      = length (filter id (map Not (duplicated (map Order_ID rs))))"
    by (simp only: length_filter_map [of Is_First_Item] Is_First_Item_set_Is_First_Item)
  also have "\<dots> = length (filter Not (duplicated (map Order_ID rs)))"
    by (simp only: length_filter_map [of Not, symmetric])
  also have "\<dots> = card (Order_ID ` set rs)"
    by (simp add: count_first)
  finally show ?thesis .
qed

lemma sum_add_fee_Revenue:
  "sum_list (map Revenue (add_fee_Revenue rs)) =
     sum_list (map Revenue rs) + 15 * of_nat (length (filter Is_First_Item rs))"
  by (induction rs) (simp_all add: add_fee_Revenue_def algebra_simps)

lemma sum_add_fee_Profit:
  "sum_list (map Profit (add_fee_Profit rs)) =
     sum_list (map Profit rs) + 15 * of_nat (length (filter Is_First_Item rs))"
  by (induction rs) (simp_all add: add_fee_Profit_def algebra_simps)

lemma map_add_fee_Revenue:
  assumes "\<And>r v. f (r\<lparr>Revenue := v\<rparr>) = f r"
  shows "map f (add_fee_Revenue rs) = map f rs"
  by (simp add: add_fee_Revenue_def assms if_distrib [of f] cong: if_cong)

lemma map_add_fee_Profit:
  assumes "\<And>r v. f (r\<lparr>Profit := v\<rparr>) = f r"
  shows "map f (add_fee_Profit rs) = map f rs"
  by (simp add: add_fee_Profit_def assms if_distrib [of f] cong: if_cong)

lemma filter_Is_First_Item_add_fee_Revenue:
  "length (filter Is_First_Item (add_fee_Revenue rs)) = length (filter Is_First_Item rs)"
proof -
  have "map Is_First_Item (add_fee_Revenue rs) = map Is_First_Item rs"
    by (rule map_add_fee_Revenue) simp
  then show ?thesis
    by (simp only: length_filter_map [of Is_First_Item])
qed

lemma map_set_Revenue:
  assumes "\<And>r v. f (r\<lparr>Revenue := v\<rparr>) = f r"
  shows "map f (set_Revenue rs) = map f rs"
  by (simp add: set_Revenue_def assms)

lemma map_set_Profit:
  assumes "\<And>r v. f (r\<lparr>Profit := v\<rparr>) = f r"
  shows "map f (set_Profit rs) = map f rs"
  by (simp add: set_Profit_def assms)

lemma Revenue_set_Revenue: "sum_list (map Revenue (set_Revenue rs)) = line_revenue rs"
  by (simp add: set_Revenue_def line_revenue_def comp_def)

lemma Profit_set_Profit: "sum_list (map Profit (set_Profit rs)) = line_profit rs"
  by (simp add: set_Profit_def line_profit_def comp_def)

lemma Order_ID_product_rows: "map Order_ID (product_rows rs) = map Order_ID rs"
  by (simp add: product_rows_def map_add_fee_Profit map_add_fee_Revenue map_set_Is_First_Item
      map_set_Profit map_set_Revenue)

lemma count_first_after_Profit_Revenue:
  "length (filter Is_First_Item (set_Is_First_Item (set_Profit (set_Revenue rs)))) = distinct_orders rs"
proof -
  have "Order_ID ` set (set_Profit (set_Revenue rs)) = set (map Order_ID (set_Profit (set_Revenue rs)))"
    by simp
  also have "\<dots> = Order_ID ` set rs"
    by (simp add: map_set_Profit map_set_Revenue)
  finally show ?thesis
    by (simp add: count_Is_First_Item distinct_orders_def)
qed

lemma Revenue_product_rows:
  "sum_list (map Revenue (product_rows rs)) = line_revenue rs + 15 * of_nat (distinct_orders rs)"
proof -
  let ?rs3 = "set_Is_First_Item (set_Profit (set_Revenue rs))"
  have "sum_list (map Revenue (product_rows rs)) = sum_list (map Revenue (add_fee_Revenue ?rs3))"
    by (simp add: product_rows_def map_add_fee_Profit)
  also have "\<dots> = sum_list (map Revenue ?rs3) + 15 * of_nat (distinct_orders rs)"
    by (simp only: sum_add_fee_Revenue count_first_after_Profit_Revenue)
  also have "map Revenue ?rs3 = map Revenue (set_Revenue rs)"
    by (simp add: map_set_Is_First_Item map_set_Profit)
  finally show ?thesis
    by (simp only: Revenue_set_Revenue)
qed

lemma Profit_product_rows:
  "sum_list (map Profit (product_rows rs)) = line_profit rs + 15 * of_nat (distinct_orders rs)"
proof -
  let ?rs3 = "set_Is_First_Item (set_Profit (set_Revenue rs))"
  have "sum_list (map Profit (product_rows rs))
      = sum_list (map Profit (add_fee_Revenue ?rs3))
        + 15 * of_nat (length (filter Is_First_Item (add_fee_Revenue ?rs3)))"
    by (simp only: product_rows_def sum_add_fee_Profit)
  also have "\<dots> = sum_list (map Profit ?rs3) + 15 * of_nat (distinct_orders rs)"
    by (simp add: map_add_fee_Revenue filter_Is_First_Item_add_fee_Revenue
        count_first_after_Profit_Revenue)
  also have "map Profit ?rs3 = map Profit (set_Profit (set_Revenue rs))"
    by (simp add: map_set_Is_First_Item)
  also have "sum_list \<dots> = line_profit (set_Revenue rs)"
    by (rule Profit_set_Profit)
  also have "\<dots> = line_profit rs"
    by (simp add: line_profit_def set_Revenue_def comp_def)
  finally show ?thesis .
qed

lemma analyse_product_sales_eq:
  assumes "product_columns \<subseteq> columns df"
  shows "analyse_product_sales df =
    Inr (sort_key (\<lambda>p. - p_Revenue p)
           (map (agg_product (product_rows (rows df))) (group_keys SKU (product_rows (rows df)))),
         \<lparr>columns = columns df \<union> {''Revenue'', ''Profit'', ''Is_First_Item''},
          rows = product_rows (rows df)\<rparr>)"
  using assms by (simp add: analyse_product_sales_def product_columns_def product_rows_def Let_def)

lemma product_totals:
  "(\<Sum>p\<leftarrow>sort_key f (map (agg_product rs) (group_keys SKU rs)). p_Revenue p) = sum_list (map Revenue rs)"
  "(\<Sum>p\<leftarrow>sort_key f (map (agg_product rs) (group_keys SKU rs)). p_Profit p) = sum_list (map Profit rs)"
proof -
  have "(\<Sum>p\<leftarrow>map (agg_product rs) (group_keys SKU rs). p_Revenue p)
      = (\<Sum>k\<leftarrow>group_keys SKU rs. sum_list (map Revenue (group_of SKU rs k)))"
    by (simp add: comp_def agg_product_def Let_def)
  then show "(\<Sum>p\<leftarrow>sort_key f (map (agg_product rs) (group_keys SKU rs)). p_Revenue p) = sum_list (map Revenue rs)"
    by (simp only: sum_list_sort_key sum_list_group_keys)
  have "(\<Sum>p\<leftarrow>map (agg_product rs) (group_keys SKU rs). p_Profit p)
      = (\<Sum>k\<leftarrow>group_keys SKU rs. sum_list (map Profit (group_of SKU rs k)))"
    by (simp add: comp_def agg_product_def Let_def)
  then show "(\<Sum>p\<leftarrow>sort_key f (map (agg_product rs) (group_keys SKU rs)). p_Profit p) = sum_list (map Profit rs)"
    by (simp only: sum_list_sort_key sum_list_group_keys)
qed

lemma order_total:
  "(\<Sum>x\<leftarrow>order_data_of rs. o_Revenue x) = line_revenue rs + 15 * of_nat (distinct_orders rs)"
proof -
  let ?rs = "set_Revenue rs"
  have "(\<Sum>x\<leftarrow>order_data_of rs. o_Revenue x) = (\<Sum>a\<leftarrow>sorted_orders ?rs. a_Revenue a)"
    by (simp add: order_data_of_def labelled_def comp_def finish_order_def)
  also have "\<dots> = (\<Sum>a\<leftarrow>map add_shipping (group_orders ?rs). a_Revenue a)"
    by (simp only: sorted_orders_def sum_list_sort_key)
  also have "\<dots> = (\<Sum>k\<leftarrow>group_keys Order_ID ?rs. sum_list (map Revenue (group_of Order_ID ?rs k)) + 15)"
    by (simp add: group_orders_def comp_def add_shipping_def agg_order_def Let_def)
  also have "\<dots> = (\<Sum>k\<leftarrow>group_keys Order_ID ?rs. sum_list (map Revenue (group_of Order_ID ?rs k)))
                     + 15 * of_nat (length (group_keys Order_ID ?rs))"
    by (simp add: sum_list_addf sum_list_triv)
  also have "\<dots> = sum_list (map Revenue ?rs) + 15 * of_nat (length (group_keys Order_ID ?rs))"
    by (simp only: sum_list_group_keys)
  also have "length (group_keys Order_ID ?rs) = distinct_orders rs"
    by (simp add: group_keys_Order_ID_set_Revenue length_group_keys distinct_orders_def)
  finally show ?thesis
    by (simp only: Revenue_set_Revenue)
qed



section \<open>The Monthly Profitability Aggregator\<close>

lemma analyse_profitability_over_time_eq:
  assumes "monthly_columns \<subseteq> columns df"
  shows "analyse_profitability_over_time df =
    Inr (months_of (rows df),
         \<lparr>columns = columns df \<union> {''Profit'', ''Is_First_Item''}, rows = month_rows (rows df)\<rparr>)"
  using assms
  by (simp add: analyse_profitability_over_time_def monthly_columns_def month_rows_def
      months_of_def Let_def)

lemma length_cumsum_from: "length (cumsum_from acc xs) = length xs"
  by (induction xs arbitrary: acc) auto

lemma length_cumsum: "length (cumsum xs) = length xs"
  by (simp add: cumsum_def length_cumsum_from)

lemma with_cumulative_columns:
  "map m_Date_placed (with_cumulative ms) = map fst ms"
  "map m_Profit (with_cumulative ms) = map (fst \<circ> snd) ms"
  "map m_Revenue (with_cumulative ms) = map (snd \<circ> snd) ms"
  "map m_Cumulative_Profit (with_cumulative ms) = cumsum (map (fst \<circ> snd) ms)"
proof -
  let ?z = "zip ms (cumsum (map (fst \<circ> snd) ms))"
  have l: "length ms = length (cumsum (map (fst \<circ> snd) ms))"
    by (simp add: length_cumsum)
  have f: "map fst ?z = ms" and s: "map snd ?z = cumsum (map (fst \<circ> snd) ms)"
    using l by simp_all
  have "map m_Date_placed (with_cumulative ms) = map fst (map fst ?z)"
    by (simp add: with_cumulative_def comp_def case_prod_unfold)
  then show "map m_Date_placed (with_cumulative ms) = map fst ms"
    by (simp only: f)
  have "map m_Profit (with_cumulative ms) = map (fst \<circ> snd) (map fst ?z)"
    by (simp add: with_cumulative_def comp_def case_prod_unfold)
  then show "map m_Profit (with_cumulative ms) = map (fst \<circ> snd) ms"
    by (simp only: f)
  have "map m_Revenue (with_cumulative ms) = map (snd \<circ> snd) (map fst ?z)"
    by (simp add: with_cumulative_def comp_def case_prod_unfold)
  then show "map m_Revenue (with_cumulative ms) = map (snd \<circ> snd) ms"
    by (simp only: f)
  have "map m_Cumulative_Profit (with_cumulative ms) = map snd ?z"
    by (simp add: with_cumulative_def comp_def case_prod_unfold)
  then show "map m_Cumulative_Profit (with_cumulative ms) = cumsum (map (fst \<circ> snd) ms)"
    by (simp only: s)
qed







lemma columns_two_orders_priced: "monthly_columns \<subseteq> columns two_orders_priced"
  by (simp add: monthly_columns_def two_orders_priced_def two_orders_def csv_table_def csv_columns_def)



text \<open>
  Claim C10. Without a Revenue column \<^verbatim>\<open>analyse_profitability_over_time\<close> returns an error
  and no table; when the columns of its first statements are there, the error is the
  \<^verbatim>\<open>KeyError\<close> of the statement that adds the fee to Revenue. With the Revenue column
  (and the other columns it reads) it returns a table, and each of \<^verbatim>\<open>analyse_data\<close> and
  \<^verbatim>\<open>analyse_product_sales\<close> leaves a Revenue column on the table it returns.
\<close>

theorem C10_needs_Revenue_column:
  "(''Revenue'' \<notin> columns df \<longrightarrow> (\<exists>e. analyse_profitability_over_time df = Inl e)) \<and>
   (''Revenue'' \<notin> columns df \<and> {''Unit Price'', ''Unit Cost'', ''QTY'', ''Order ID''} \<subseteq> columns df \<longrightarrow>
      analyse_profitability_over_time df = Inl (KeyError ''Revenue'')) \<and>
   (monthly_columns \<subseteq> columns df \<longrightarrow> (\<exists>ms df1. analyse_profitability_over_time df = Inr (ms, df1))) \<and>
   (\<forall>cd rd od df1. analyse_data df = Inr (cd, rd, od, df1) \<longrightarrow> ''Revenue'' \<in> columns df1) \<and>
   (\<forall>pa df2. analyse_product_sales df = Inr (pa, df2) \<longrightarrow> ''Revenue'' \<in> columns df2)"
proof (intro conjI impI allI)
  assume "''Revenue'' \<notin> columns df"
  then show "\<exists>e. analyse_profitability_over_time df = Inl e"
    by (simp add: analyse_profitability_over_time_def Let_def)
next
  assume "''Revenue'' \<notin> columns df \<and> {''Unit Price'', ''Unit Cost'', ''QTY'', ''Order ID''} \<subseteq> columns df"
  then show "analyse_profitability_over_time df = Inl (KeyError ''Revenue'')"
    by (simp add: analyse_profitability_over_time_def Let_def)
next
  assume "monthly_columns \<subseteq> columns df"
  then show "\<exists>ms df1. analyse_profitability_over_time df = Inr (ms, df1)"
    by (simp add: analyse_profitability_over_time_eq)
next
  fix cd rd od df1
  assume "analyse_data df = Inr (cd, rd, od, df1)"
  then show "''Revenue'' \<in> columns df1"
    by (auto simp: analyse_data_def Let_def split: if_splits sum.splits)
next
  fix pa df2
  assume "analyse_product_sales df = Inr (pa, df2)"
  then show "''Revenue'' \<in> columns df2"
    by (auto simp: analyse_product_sales_def Let_def split: if_splits)
qed

lemma one_order_no_Revenue:
  "''Revenue'' \<notin> columns one_order \<and> {''Unit Price'', ''Unit Cost'', ''QTY'', ''Order ID''} \<subseteq> columns one_order"
  by (simp add: one_order_def csv_table_def csv_columns_def)

theorem C10_needs_Revenue_column_witness:
  "''Revenue'' \<notin> columns one_order \<and>
   load_data one_order = Inr one_order \<and>
   analyse_profitability_over_time one_order = Inl (KeyError ''Revenue'') \<and>
   monthly_columns \<subseteq> columns two_orders_priced \<and>
   (\<exists>ms df1. analyse_profitability_over_time two_orders_priced = Inr (ms, df1)) \<and>
   (\<exists>cd rd od df1. analyse_data one_order = Inr (cd, rd, od, df1) \<and> ''Revenue'' \<in> columns df1)"
proof -
  have l: "load_data one_order = Inr one_order"
    by (simp add: load_data_def one_order_def csv_table_def csv_columns_def)
  have 1: "analyse_profitability_over_time one_order = Inl (KeyError ''Revenue'')"
    by (rule C10_needs_Revenue_column [of one_order, THEN conjunct2, THEN conjunct1, THEN mp,
          OF one_order_no_Revenue])
  have 2: "\<exists>ms df1. analyse_profitability_over_time two_orders_priced = Inr (ms, df1)"
    by (rule C10_needs_Revenue_column [of two_orders_priced, THEN conjunct2, THEN conjunct2,
          THEN conjunct1, THEN mp, OF columns_two_orders_priced])
  from one_order_no_Revenue have 0: "''Revenue'' \<notin> columns one_order" ..
  from analyse_data_eq [OF columns_one_order rows_one_order]
  obtain cd rd od df1 where r: "analyse_data one_order = Inr (cd, rd, od, df1)"
    by blast
  have "''Revenue'' \<in> columns df1"
    by (rule C10_needs_Revenue_column [of one_order, THEN conjunct2, THEN conjunct2, THEN conjunct2,
          THEN conjunct1, THEN spec, THEN spec, THEN spec, THEN spec, THEN mp, OF r])
  with r have 3: "\<exists>cd rd od df1. analyse_data one_order = Inr (cd, rd, od, df1) \<and> ''Revenue'' \<in> columns df1"
    by (intro exI [of _ cd] exI [of _ rd] exI [of _ od] exI [of _ df1] conjI)
  from 0 l 1 columns_two_orders_priced 2 3 show ?thesis
    by (intro conjI)
qed

section \<open>Totals of the pipeline\<close>

lemma Order_ID_month_rows: "map Order_ID (month_rows rs) = map Order_ID rs"
  by (simp add: month_rows_def map_add_fee_Profit map_add_fee_Revenue map_set_Is_First_Item
      map_set_Profit)

lemma count_first_after_Profit:
  "length (filter Is_First_Item (set_Is_First_Item (set_Profit rs))) = distinct_orders rs"
proof -
  have "Order_ID ` set (set_Profit rs) = set (map Order_ID (set_Profit rs))"
    by simp
  also have "\<dots> = Order_ID ` set rs"
    by (simp add: map_set_Profit)
  finally show ?thesis
    by (simp add: count_Is_First_Item distinct_orders_def)
qed

lemma filter_Is_First_Item_add_fee_Profit:
  "length (filter Is_First_Item (add_fee_Profit rs)) = length (filter Is_First_Item rs)"
proof -
  have "map Is_First_Item (add_fee_Profit rs) = map Is_First_Item rs"
    by (rule map_add_fee_Profit) simp
  then show ?thesis
    by (simp only: length_filter_map [of Is_First_Item])
qed

text \<open>The fee is added to the Revenue column as it stands on entry.\<close>

lemma Revenue_month_rows:
  "sum_list (map Revenue (month_rows rs)) = sum_list (map Revenue rs) + 15 * of_nat (distinct_orders rs)"
proof -
  let ?rs2 = "set_Is_First_Item (set_Profit rs)"
  have "sum_list (map Revenue (month_rows rs))
      = sum_list (map Revenue (add_fee_Profit ?rs2))
        + 15 * of_nat (length (filter Is_First_Item (add_fee_Profit ?rs2)))"
    by (simp only: month_rows_def sum_add_fee_Revenue)
  also have "\<dots> = sum_list (map Revenue ?rs2) + 15 * of_nat (distinct_orders rs)"
    by (simp add: map_add_fee_Profit filter_Is_First_Item_add_fee_Profit count_first_after_Profit)
  also have "map Revenue ?rs2 = map Revenue rs"
    by (simp add: map_set_Is_First_Item map_set_Profit)
  finally show ?thesis .
qed

lemma Profit_month_rows:
  "sum_list (map Profit (month_rows rs)) = line_profit rs + 15 * of_nat (distinct_orders rs)"
proof -
  let ?rs2 = "set_Is_First_Item (set_Profit rs)"
  have "sum_list (map Profit (month_rows rs)) = sum_list (map Profit (add_fee_Profit ?rs2))"
    by (simp add: month_rows_def map_add_fee_Revenue)
  also have "\<dots> = sum_list (map Profit ?rs2) + 15 * of_nat (distinct_orders rs)"
    by (simp only: sum_add_fee_Profit count_first_after_Profit)
  also have "map Profit ?rs2 = map Profit (set_Profit rs)"
    by (simp add: map_set_Is_First_Item)
  finally show ?thesis
    by (simp only: Profit_set_Profit)
qed

lemma month_totals:
  "(\<Sum>m\<leftarrow>months_of rs. m_Revenue m) = sum_list (map Revenue (month_rows rs))"
  "(\<Sum>m\<leftarrow>months_of rs. m_Profit m) = sum_list (map Profit (month_rows rs))"
proof -
  let ?rs = "month_rows rs"
  let ?ks = "group_keys (to_period \<circ> Date_placed) ?rs"
  have "(\<Sum>m\<leftarrow>months_of rs. m_Revenue m) = (\<Sum>x\<leftarrow>sort_key fst (map (agg_month ?rs) ?ks). snd (snd x))"
    by (simp add: months_of_def with_cumulative_columns comp_def)
  also have "\<dots> = (\<Sum>k\<leftarrow>?ks. sum_list (map Revenue (group_of (to_period \<circ> Date_placed) ?rs k)))"
    by (simp add: sum_list_sort_key comp_def agg_month_def Let_def)
  finally show "(\<Sum>m\<leftarrow>months_of rs. m_Revenue m) = sum_list (map Revenue (month_rows rs))"
    by (simp only: sum_list_group_keys)
  have "(\<Sum>m\<leftarrow>months_of rs. m_Profit m) = (\<Sum>x\<leftarrow>sort_key fst (map (agg_month ?rs) ?ks). fst (snd x))"
    by (simp add: months_of_def with_cumulative_columns comp_def)
  also have "\<dots> = (\<Sum>k\<leftarrow>?ks. sum_list (map Profit (group_of (to_period \<circ> Date_placed) ?rs k)))"
    by (simp add: sum_list_sort_key comp_def agg_month_def Let_def)
  finally show "(\<Sum>m\<leftarrow>months_of rs. m_Profit m) = sum_list (map Profit (month_rows rs))"
    by (simp only: sum_list_group_keys)
qed

lemma line_profit_product_rows: "line_profit (product_rows rs) = line_profit rs"
proof -
  let ?f = "\<lambda>r. (Unit_Price r - Unit_Cost r) * of_int (QTY r)"
  have "map ?f (product_rows rs) = map ?f rs"
    by (simp add: product_rows_def map_add_fee_Profit map_add_fee_Revenue map_set_Is_First_Item
        map_set_Profit map_set_Revenue)
  then show ?thesis by (simp only: line_profit_def)
qed

lemma line_set_Revenue:
  "line_revenue (set_Revenue rs) = line_revenue rs"
  "line_profit (set_Revenue rs) = line_profit rs"
  "distinct_orders (set_Revenue rs) = distinct_orders rs"
  by (simp_all add: line_revenue_def line_profit_def distinct_orders_def set_Revenue_def comp_def image_image)

lemma distinct_orders_product_rows: "distinct_orders (product_rows rs) = distinct_orders rs"
proof -
  have "Order_ID ` set (product_rows rs) = set (map Order_ID (product_rows rs))" by simp
  also have "\<dots> = Order_ID ` set rs" by (simp only: Order_ID_product_rows set_map)
  finally show ?thesis by (simp only: distinct_orders_def)
qed

text \<open>
  The totals of one run of \<^verbatim>\<open>main\<close>: every total carries the fee once per distinct Order ID,
  except the monthly Revenue, which carries it twice.
\<close>

lemma pipeline_totals:
  assumes "csv_columns \<subseteq> columns df" and "rows df \<noteq> []"
  shows "\<exists>a. main df = Inr a \<and>
           (\<Sum>x\<leftarrow>order_data a. o_Revenue x) = line_revenue (rows df) + 15 * of_nat (distinct_orders (rows df)) \<and>
           (\<Sum>p\<leftarrow>product_analysis a. p_Revenue p) = line_revenue (rows df) + 15 * of_nat (distinct_orders (rows df)) \<and>
           (\<Sum>p\<leftarrow>product_analysis a. p_Profit p) = line_profit (rows df) + 15 * of_nat (distinct_orders (rows df)) \<and>
           (\<Sum>m\<leftarrow>profitability_data a. m_Profit m) = line_profit (rows df) + 15 * of_nat (distinct_orders (rows df)) \<and>
           (\<Sum>m\<leftarrow>profitability_data a. m_Revenue m) = line_revenue (rows df) + 30 * of_nat (distinct_orders (rows df))"
proof -
  let ?rs1 = "set_Revenue (rows df)"
  let ?rs2 = "product_rows ?rs1"
  let ?df1 = "\<lparr>columns = insert ''Revenue'' (columns df), rows = ?rs1\<rparr>"
  let ?df2 = "\<lparr>columns = columns ?df1 \<union> {''Revenue'', ''Profit'', ''Is_First_Item''}, rows = ?rs2\<rparr>"
  let ?df3 = "\<lparr>columns = columns ?df2 \<union> {''Profit'', ''Is_First_Item''}, rows = month_rows ?rs2\<rparr>"
  let ?pa = "sort_key (\<lambda>p. - p_Revenue p) (map (agg_product ?rs2) (group_keys SKU ?rs2))"
  from assms(1) have c: "order_columns \<subseteq> columns df" "product_columns \<subseteq> columns ?df1"
    "monthly_columns \<subseteq> columns ?df2"
    by (auto simp: csv_columns_def order_columns_def product_columns_def monthly_columns_def)
  from assms(1) have l: "load_data df = Inr df"
    by (simp add: load_data_def csv_columns_def)
  have 1: "analyse_data df =
      Inr (ensure_columns (unstack (grouped length (order_data_of (rows df))) 0),
           ensure_columns (unstack (grouped (\<lambda>g. sum_list (map o_Revenue g)) (order_data_of (rows df))) 0),
           order_data_of (rows df), ?df1)"
    by (rule analyse_data_eq [OF c(1) assms(2)])
  have 2: "analyse_product_sales ?df1 = Inr (?pa, ?df2)"
    using analyse_product_sales_eq [OF c(2)] by simp
  have 3: "analyse_profitability_over_time ?df2 = Inr (months_of ?rs2, ?df3)"
    using analyse_profitability_over_time_eq [OF c(3)] by simp
  from assms(1) obtain fr where 4: "analyse_first_and_repeat_purchases ?df3 = Inr fr"
    by (auto simp: analyse_first_and_repeat_purchases_def csv_columns_def Let_def)
  let ?a = "\<lparr>count_data = ensure_columns (unstack (grouped length (order_data_of (rows df))) 0),
            revenue_data = ensure_columns (unstack (grouped (\<lambda>g. sum_list (map o_Revenue g)) (order_data_of (rows df))) 0),
            order_data = order_data_of (rows df),
            product_analysis = ?pa, profitability_data = months_of ?rs2,
            first_repeat_analysis = fr\<rparr>"
  have m: "main df = Inr ?a"
    by (simp only: main_def l 1 2 3 4 sum.case prod.case)
  have o: "(\<Sum>x\<leftarrow>order_data ?a. o_Revenue x) = line_revenue (rows df) + 15 * of_nat (distinct_orders (rows df))"
    by (simp add: order_total)
  have pr: "(\<Sum>p\<leftarrow>product_analysis ?a. p_Revenue p) = line_revenue (rows df) + 15 * of_nat (distinct_orders (rows df))"
    by (simp add: product_totals Revenue_product_rows line_set_Revenue)
  have pp: "(\<Sum>p\<leftarrow>product_analysis ?a. p_Profit p) = line_profit (rows df) + 15 * of_nat (distinct_orders (rows df))"
    by (simp add: product_totals Profit_product_rows line_set_Revenue)
  have mp: "(\<Sum>m\<leftarrow>profitability_data ?a. m_Profit m) = line_profit (rows df) + 15 * of_nat (distinct_orders (rows df))"
    by (simp add: month_totals Profit_month_rows line_profit_product_rows distinct_orders_product_rows
        line_set_Revenue)
  have mr: "(\<Sum>m\<leftarrow>profitability_data ?a. m_Revenue m) = line_revenue (rows df) + 30 * of_nat (distinct_orders (rows df))"
    by (simp add: month_totals Revenue_month_rows Revenue_product_rows distinct_orders_product_rows
        line_set_Revenue)
  from m o pr pp mp mr show ?thesis
    by (intro exI [of _ ?a] conjI)
qed

text \<open>
  Claim C1 at the table \<open>one_order\<close> (one line, QTY 1, Unit Price 100): after \<^verbatim>\<open>main\<close> the
  monthly Revenue is 130, the line's revenue plus the fee twice, where the line's revenue
  plus 15 per distinct Order ID is 115.
\<close>

theorem C1_monthly_revenue_counts_fee_twice:
  "monthly_revenue one_order = Inr [130] \<and>
   line_revenue (rows one_order) + 15 * of_nat (distinct_orders (rows one_order)) = 115"
  by code_simp

section \<open>The Purchase-Affinity Analyzer\<close>

lemma analyse_first_and_repeat_purchases_eq:
  assumes "affinity_columns \<subseteq> columns df"
  shows "analyse_first_and_repeat_purchases df = Inr (affinity_of (rows df))"
  using assms
  by (simp add: analyse_first_and_repeat_purchases_def affinity_columns_def affinity_of_def
      first_SKUs_def repeat_SKUs_def Let_def)

lemma df_sorted_columns:
  "map fst (df_sorted rs) = sort_key (\<lambda>r. (Email r, Date_placed r)) rs"
  "map snd (df_sorted rs) = map Not (duplicated (map Email (sort_key (\<lambda>r. (Email r, Date_placed r)) rs)))"
  by (simp_all add: df_sorted_def Let_def length_duplicated)

lemma length_filter_sort_key: "length (filter P (sort_key f xs)) = length (filter P xs)"
  by (simp add: filter_sort)

lemma count_split:
  "length (filter P (map fst (filter snd z))) + length (filter P (map fst (filter (\<lambda>x. \<not> snd x) z)))
     = length (filter P (map fst z))"
  by (induction z) auto

lemma count_first_repeat:
  "length (filter (\<lambda>x. x = k) (first_SKUs rs)) + length (filter (\<lambda>x. x = k) (repeat_SKUs rs))
     = length (filter (\<lambda>r. SKU r = k) rs)"
proof -
  let ?z = "df_sorted rs"
  have "length (filter (\<lambda>x. x = k) (first_SKUs rs)) = length (filter (\<lambda>r. SKU r = k) (map fst (filter snd ?z)))"
    by (simp add: first_SKUs_def filter_map comp_def)
  moreover have "length (filter (\<lambda>x. x = k) (repeat_SKUs rs))
      = length (filter (\<lambda>r. SKU r = k) (map fst (filter (\<lambda>x. \<not> snd x) ?z)))"
    by (simp add: repeat_SKUs_def filter_map comp_def)
  ultimately have "length (filter (\<lambda>x. x = k) (first_SKUs rs)) + length (filter (\<lambda>x. x = k) (repeat_SKUs rs))
      = length (filter (\<lambda>r. SKU r = k) (map fst ?z))"
    by (simp only: count_split)
  then show ?thesis
    by (simp only: df_sorted_columns length_filter_sort_key)
qed

lemma map_of_sort_key:
  assumes "distinct (map fst ps)"
  shows "map_of (sort_key f ps) = map_of ps"
proof -
  have "distinct (map fst (sort_key f ps))"
    using assms by (rule distinct_map_sort_key)
  moreover have "set (sort_key f ps) = set ps" by simp
  ultimately show ?thesis
    using assms by (simp add: map_of_inject_set)
qed

lemma keys_value_counts: "set (map fst (value_counts xs)) = set xs"
  by (simp add: value_counts_def image_image)

lemma map_of_value_counts:
  "map_of (value_counts xs) k =
     (if k \<in> set xs then Some (length (filter (\<lambda>x. x = k) xs)) else None)"
proof -
  let ?ps = "map (\<lambda>k. (k, length (filter (\<lambda>x. x = k) xs))) (remdups xs)"
  have "distinct (map fst ?ps)" by (simp add: comp_def)
  then have "map_of (value_counts xs) = map_of ?ps"
    unfolding value_counts_def by (rule map_of_sort_key)
  then show ?thesis by (simp add: map_of_keyed)
qed

lemma count_value_counts:
  "(case map_of (value_counts xs) k of None \<Rightarrow> 0 | Some n \<Rightarrow> n) = length (filter (\<lambda>x. x = k) xs)"
proof (cases "k \<in> set xs")
  case True
  then show ?thesis by (simp add: map_of_value_counts)
next
  case False
  then have "filter (\<lambda>x. x = k) xs = []" by (auto simp: filter_empty_conv)
  with False show ?thesis by (simp add: map_of_value_counts)
qed

lemma f_SKU_merge_outer:
  "map f_SKU (merge_outer xs ys) = sort (remdups (map fst xs @ map fst ys))"
  by (simp add: merge_outer_def comp_def Let_def)

lemma filter_merge_outer:
  assumes "k \<in> fst ` set xs \<union> fst ` set ys"
  shows "filter (\<lambda>a. f_SKU a = k) (merge_outer xs ys) =
     [\<lparr>f_SKU = k,
       First_Purchase_Count = (case map_of xs k of None \<Rightarrow> 0 | Some n \<Rightarrow> n),
       Repeat_Purchase_Count = (case map_of ys k of None \<Rightarrow> 0 | Some n \<Rightarrow> n),
       Repeat_to_First_Ratio =
         ratio (of_nat (case map_of ys k of None \<Rightarrow> 0 | Some n \<Rightarrow> n))
               (of_nat (case map_of xs k of None \<Rightarrow> 0 | Some n \<Rightarrow> n))\<rparr>]"
proof -
  let ?ks = "sort (remdups (map fst xs @ map fst ys))"
  have d: "distinct ?ks" and m: "k \<in> set ?ks"
    using assms by auto
  have "filter (\<lambda>a. f_SKU a = k) (merge_outer xs ys)
      = map (\<lambda>k.
            let a = (case map_of xs k of None \<Rightarrow> 0 | Some n \<Rightarrow> n);
                b = (case map_of ys k of None \<Rightarrow> 0 | Some n \<Rightarrow> n)
            in \<lparr>f_SKU = k, First_Purchase_Count = a, Repeat_Purchase_Count = b,
                Repeat_to_First_Ratio = ratio (of_nat b) (of_nat a)\<rparr>) (filter (\<lambda>j. j = k) ?ks)"
    by (simp add: merge_outer_def filter_map comp_def Let_def)
  also have "filter (\<lambda>j. j = k) ?ks = [k]"
    using d m by (rule filter_eq_distinct)
  finally show ?thesis by (simp add: Let_def)
qed

text \<open>
  Claim C7. On a table with the columns the function reads, every SKU \<open>k\<close> of the table
  has exactly one row in the result, and its First Purchase Count plus its Repeat
  Purchase Count is the number of lines of the table whose SKU is \<open>k\<close>.
\<close>

theorem C7_counts_add_up:
  assumes "affinity_columns \<subseteq> columns df" and "k \<in> SKU ` set (rows df)"
  shows "\<exists>fr a.
           analyse_first_and_repeat_purchases df = Inr fr \<and>
           filter (\<lambda>a. f_SKU a = k) fr = [a] \<and>
           First_Purchase_Count a + Repeat_Purchase_Count a = length (filter (\<lambda>r. SKU r = k) (rows df))"
proof -
  let ?fc = "value_counts (first_SKUs (rows df))"
  let ?rc = "value_counts (repeat_SKUs (rows df))"
  let ?a = "\<lparr>f_SKU = k,
       First_Purchase_Count = (case map_of ?fc k of None \<Rightarrow> 0 | Some n \<Rightarrow> n),
       Repeat_Purchase_Count = (case map_of ?rc k of None \<Rightarrow> 0 | Some n \<Rightarrow> n),
       Repeat_to_First_Ratio =
         ratio (of_nat (case map_of ?rc k of None \<Rightarrow> 0 | Some n \<Rightarrow> n))
               (of_nat (case map_of ?fc k of None \<Rightarrow> 0 | Some n \<Rightarrow> n))\<rparr>"
  from assms(2) have "length (filter (\<lambda>r. SKU r = k) (rows df)) \<noteq> 0"
    by (auto simp: filter_empty_conv)
  then have "length (filter (\<lambda>x. x = k) (first_SKUs (rows df))) \<noteq> 0 \<or>
      length (filter (\<lambda>x. x = k) (repeat_SKUs (rows df))) \<noteq> 0"
    by (simp only: count_first_repeat [symmetric]) simp
  then have "k \<in> set (first_SKUs (rows df)) \<union> set (repeat_SKUs (rows df))"
    by (auto simp: filter_empty_conv)
  then have "k \<in> fst ` set ?fc \<union> fst ` set ?rc"
    using keys_value_counts by simp
  then have "filter (\<lambda>a. f_SKU a = k) (merge_outer ?fc ?rc) = [?a]"
    by (rule filter_merge_outer)
  then have f: "filter (\<lambda>a. f_SKU a = k) (affinity_of (rows df)) = [?a]"
    by (simp add: affinity_of_def filter_sort)
  have c: "First_Purchase_Count ?a + Repeat_Purchase_Count ?a = length (filter (\<lambda>r. SKU r = k) (rows df))"
    by (simp add: count_value_counts count_first_repeat)
  from analyse_first_and_repeat_purchases_eq [OF assms(1)] f c show ?thesis
    by (intro exI [of _ "affinity_of (rows df)"] exI [of _ ?a] conjI)
qed

lemma columns_two_orders_affinity: "affinity_columns \<subseteq> columns two_orders"
  by (simp add: affinity_columns_def two_orders_def csv_table_def csv_columns_def)

theorem C7_counts_add_up_witness:
  "affinity_columns \<subseteq> columns two_orders \<and> ''X1'' \<in> SKU ` set (rows two_orders) \<and>
   (\<exists>fr a.
      analyse_first_and_repeat_purchases two_orders = Inr fr \<and>
      filter (\<lambda>a. f_SKU a = ''X1'') fr = [a] \<and>
      First_Purchase_Count a + Repeat_Purchase_Count a = 2)"
proof -
  have k: "''X1'' \<in> SKU ` set (rows two_orders)"
    by (simp add: two_orders_def csv_table_def csv_row_def)
  from C7_counts_add_up [OF columns_two_orders_affinity k]
  obtain fr a where r: "analyse_first_and_repeat_purchases two_orders = Inr fr"
    and f: "filter (\<lambda>a. f_SKU a = ''X1'') fr = [a]"
    and c: "First_Purchase_Count a + Repeat_Purchase_Count a
              = length (filter (\<lambda>r. SKU r = ''X1'') (rows two_orders))"
    by (elim exE conjE)
  have "length (filter (\<lambda>r. SKU r = ''X1'') (rows two_orders)) = 2"
    by (simp add: two_orders_def csv_table_def csv_row_def)
  with c have n: "First_Purchase_Count a + Repeat_Purchase_Count a = 2" by simp
  from columns_two_orders_affinity k r f n show ?thesis
    by (intro conjI exI [of _ fr] exI [of _ a])
qed

lemma count_first_occurrence_from:
  "length (filter (\<lambda>(x, d). x = e \<and> \<not> d) (zip xs (duplicated_from seen xs)))
     = (if e \<in> set xs - set seen then 1 else 0)"
proof (induction xs arbitrary: seen)
  case Nil
  then show ?case by simp
next
  case (Cons a xs)
  let ?P = "\<lambda>(x, d). x = e \<and> \<not> d"
  have "length (filter ?P (zip (a # xs) (duplicated_from seen (a # xs))))
      = (if a = e \<and> a \<notin> set seen then 1 else 0)
        + length (filter ?P (zip xs (duplicated_from (a # seen) xs)))"
    by auto
  also have "\<dots> = (if a = e \<and> a \<notin> set seen then 1 else 0)
        + (if e \<in> set xs - set (a # seen) then 1 else 0)"
    by (simp only: Cons.IH)
  also have "\<dots> = (if e \<in> set (a # xs) - set seen then 1 else 0)"
    by auto
  finally show ?case .
qed

lemma count_first_occurrence:
  "e \<in> set xs \<Longrightarrow> length (filter (\<lambda>(x, d). x = e \<and> \<not> d) (zip xs (duplicated xs))) = 1"
  by (simp add: duplicated_def count_first_occurrence_from)

lemma df_sorted_one_first:
  assumes "e \<in> Email ` set rs"
  shows "length (filter (\<lambda>x. snd x \<and> Email (fst x) = e) (df_sorted rs)) = 1"
proof -
  let ?s = "sort_key (\<lambda>r. (Email r, Date_placed r)) rs"
  let ?ds = "duplicated (map Email ?s)"
  have "df_sorted rs = map (\<lambda>(r, d). (r, \<not> d)) (zip ?s ?ds)"
    by (simp add: df_sorted_def Let_def zip_map2)
  then have "filter (\<lambda>x. snd x \<and> Email (fst x) = e) (df_sorted rs)
      = map (\<lambda>(r, d). (r, \<not> d)) (filter (\<lambda>(r, d). Email r = e \<and> \<not> d) (zip ?s ?ds))"
    by (simp add: filter_map comp_def case_prod_unfold conj_commute)
  then have "length (filter (\<lambda>x. snd x \<and> Email (fst x) = e) (df_sorted rs))
      = length (filter (\<lambda>(r, d). Email r = e \<and> \<not> d) (zip ?s ?ds))"
    by simp
  also have "\<dots> = length (filter (\<lambda>(x, d). x = e \<and> \<not> d) (map (\<lambda>(r, d). (Email r, d)) (zip ?s ?ds)))"
    by (simp add: filter_map comp_def case_prod_unfold)
  also have "map (\<lambda>(r, d). (Email r, d)) (zip ?s ?ds) = zip (map Email ?s) ?ds"
    by (simp add: zip_map1)
  also have "length (filter (\<lambda>(x, d). x = e \<and> \<not> d) (zip (map Email ?s) ?ds)) = 1"
    using assms by (intro count_first_occurrence) simp
  finally show ?thesis .
qed

lemma df_sorted_first_is_earliest:
  assumes x: "x \<in> set (df_sorted rs)" and f: "snd x"
    and r: "r \<in> set rs" and e: "Email r = Email (fst x)"
  shows "Date_placed (fst x) \<le> Date_placed r"
proof -
  let ?key = "\<lambda>r. (Email r, Date_placed r)"
  let ?s = "sort_key ?key rs"
  let ?ds = "duplicated (map Email ?s)"
  have len: "length (df_sorted rs) = length ?s"
    by (simp add: df_sorted_def Let_def length_duplicated)
  from x obtain i where "i < length (df_sorted rs)" and xi: "x = df_sorted rs ! i"
    unfolding in_set_conv_nth by blast
  with len have i: "i < length ?s" by simp
  have fst_x: "fst x = ?s ! i"
    using i by (simp add: xi df_sorted_def Let_def length_duplicated)
  have "snd x = (\<not> ?ds ! i)"
    using i by (simp add: xi df_sorted_def Let_def length_duplicated)
  with f have "\<not> ?ds ! i" by simp
  with i have fresh: "Email (?s ! i) \<notin> set (take i (map Email ?s))"
    by (simp add: nth_duplicated)
  from r have "r \<in> set ?s" by simp
  then obtain j where j: "j < length ?s" and rj: "r = ?s ! j"
    unfolding in_set_conv_nth by blast
  have "i \<le> j"
  proof (rule ccontr)
    assume "\<not> i \<le> j"
    then have "j < i" by simp
    with i have "j < length (take i (map Email ?s))" by simp
    then have "take i (map Email ?s) ! j \<in> set (take i (map Email ?s))"
      by (rule nth_mem)
    moreover have "take i (map Email ?s) ! j = Email (?s ! j)"
      using \<open>j < i\<close> j by simp
    ultimately have "Email (?s ! j) \<in> set (take i (map Email ?s))" by simp
    with fresh e rj fst_x show False by simp
  qed
  moreover have "sorted (map ?key ?s)" by (rule sorted_sort_key)
  ultimately have "map ?key ?s ! i \<le> map ?key ?s ! j"
    using j by (simp add: sorted_iff_nth_mono del: nth_map)
  with i j have "(Email (?s ! i), Date_placed (?s ! i)) \<le> (Email (?s ! j), Date_placed (?s ! j))"
    by simp
  with e rj fst_x show ?thesis
    by (simp add: less_eq_prod_def)
qed

lemma count_first_SKUs:
  "length (filter (\<lambda>x. x = k) (first_SKUs rs))
     = length (filter (\<lambda>x. snd x \<and> SKU (fst x) = k) (df_sorted rs))"
  by (simp add: first_SKUs_def filter_map comp_def)

lemma First_Purchase_Count_affinity_of:
  assumes "a \<in> set (affinity_of rs)"
  shows "First_Purchase_Count a
     = length (filter (\<lambda>x. snd x \<and> SKU (fst x) = f_SKU a) (df_sorted rs))"
proof -
  from assms have "a \<in> set (merge_outer (value_counts (first_SKUs rs)) (value_counts (repeat_SKUs rs)))"
    by (simp add: affinity_of_def)
  then have "First_Purchase_Count a
      = (case map_of (value_counts (first_SKUs rs)) (f_SKU a) of None \<Rightarrow> 0 | Some n \<Rightarrow> n)"
    by (auto simp: merge_outer_def Let_def)
  then show ?thesis
    by (simp only: count_value_counts count_first_SKUs)
qed

lemma length_by_value:
  assumes "distinct ks" and "set xs \<subseteq> set ks"
  shows "(\<Sum>k\<leftarrow>ks. length (filter (\<lambda>x. x = k) xs)) = length xs"
proof -
  have "(\<Sum>k\<leftarrow>ks. sum_list (map (\<lambda>x. 1::nat) (group_of (\<lambda>x. x) xs k))) = sum_list (map (\<lambda>x. 1::nat) xs)"
    using assms by (intro sum_list_groups) simp_all
  then show ?thesis
    by (simp add: group_of_def sum_list_triv)
qed

lemma sum_First_Purchase_Count:
  "(\<Sum>a\<leftarrow>affinity_of rs. First_Purchase_Count a) = card (Email ` set rs)"
proof -
  let ?fc = "value_counts (first_SKUs rs)"
  let ?rc = "value_counts (repeat_SKUs rs)"
  let ?ks = "sort (remdups (map fst ?fc @ map fst ?rc))"
  let ?s = "sort_key (\<lambda>r. (Email r, Date_placed r)) rs"
  have "(\<Sum>a\<leftarrow>affinity_of rs. First_Purchase_Count a)
      = (\<Sum>a\<leftarrow>merge_outer ?fc ?rc. First_Purchase_Count a)"
    by (simp only: affinity_of_def sum_list_sort_key)
  also have "\<dots> = (\<Sum>k\<leftarrow>?ks. case map_of ?fc k of None \<Rightarrow> 0 | Some n \<Rightarrow> n)"
    by (simp add: merge_outer_def comp_def Let_def)
  also have "\<dots> = (\<Sum>k\<leftarrow>?ks. length (filter (\<lambda>x. x = k) (first_SKUs rs)))"
    by (simp only: count_value_counts)
  also have "\<dots> = length (first_SKUs rs)"
  proof (rule length_by_value)
    show "distinct ?ks" by simp
    have "set (first_SKUs rs) = set (map fst ?fc)" by (simp only: keys_value_counts)
    then show "set (first_SKUs rs) \<subseteq> set ?ks" by auto
  qed
  also have "\<dots> = length (filter snd (df_sorted rs))"
    by (simp add: first_SKUs_def)
  also have "\<dots> = length (filter id (map snd (df_sorted rs)))"
    by (rule length_filter_map)
  also have "\<dots> = length (filter id (map Not (duplicated (map Email ?s))))"
    by (simp only: df_sorted_columns)
  also have "\<dots> = length (filter Not (duplicated (map Email ?s)))"
    by (rule length_filter_map [symmetric])
  also have "\<dots> = card (Email ` set rs)"
    by (simp add: count_first)
  finally show ?thesis .
qed

lemma length_df_sorted: "length (df_sorted rs) = length rs"
  by (simp add: df_sorted_def Let_def length_duplicated)

lemma nth_df_sorted:
  assumes "i < length rs"
  shows "df_sorted rs ! i =
     (sort_key (\<lambda>r. (Email r, Date_placed r)) rs ! i,
      Email (sort_key (\<lambda>r. (Email r, Date_placed r)) rs ! i)
        \<notin> Email ` set (take i (sort_key (\<lambda>r. (Email r, Date_placed r)) rs)))"
proof -
  let ?s = "sort_key (\<lambda>r. (Email r, Date_placed r)) rs"
  have i: "i < length (map Email ?s)" using assms by simp
  have "duplicated (map Email ?s) ! i \<longleftrightarrow> map Email ?s ! i \<in> set (take i (map Email ?s))"
    using i by (rule nth_duplicated)
  also have "\<dots> \<longleftrightarrow> Email (?s ! i) \<in> Email ` set (take i ?s)"
    using assms by (simp add: take_map)
  finally show ?thesis
    using assms by (simp add: df_sorted_def Let_def length_duplicated)
qed

lemma count_df_sorted:
  "length (filter Q (df_sorted rs)) =
     card {i. i < length rs \<and>
              Q (sort_key (\<lambda>r. (Email r, Date_placed r)) rs ! i,
                 Email (sort_key (\<lambda>r. (Email r, Date_placed r)) rs ! i)
                   \<notin> Email ` set (take i (sort_key (\<lambda>r. (Email r, Date_placed r)) rs)))}"
proof -
  have "length (filter Q (df_sorted rs)) = card {i. i < length (df_sorted rs) \<and> Q (df_sorted rs ! i)}"
    by (rule length_filter_conv_card)
  also have "{i. i < length (df_sorted rs) \<and> Q (df_sorted rs ! i)} =
     {i. i < length rs \<and>
              Q (sort_key (\<lambda>r. (Email r, Date_placed r)) rs ! i,
                 Email (sort_key (\<lambda>r. (Email r, Date_placed r)) rs ! i)
                   \<notin> Email ` set (take i (sort_key (\<lambda>r. (Email r, Date_placed r)) rs)))}"
    by (rule Collect_cong) (auto simp: length_df_sorted nth_df_sorted)
  finally show ?thesis .
qed

lemma count_repeat_SKUs:
  "length (filter (\<lambda>x. x = k) (repeat_SKUs rs))
     = length (filter (\<lambda>x. \<not> snd x \<and> SKU (fst x) = k) (df_sorted rs))"
  by (simp add: repeat_SKUs_def filter_map comp_def)

lemma Repeat_Purchase_Count_affinity_of:
  assumes "a \<in> set (affinity_of rs)"
  shows "Repeat_Purchase_Count a
     = length (filter (\<lambda>x. \<not> snd x \<and> SKU (fst x) = f_SKU a) (df_sorted rs))"
proof -
  from assms have "a \<in> set (merge_outer (value_counts (first_SKUs rs)) (value_counts (repeat_SKUs rs)))"
    by (simp add: affinity_of_def)
  then have "Repeat_Purchase_Count a
      = (case map_of (value_counts (repeat_SKUs rs)) (f_SKU a) of None \<Rightarrow> 0 | Some n \<Rightarrow> n)"
    by (auto simp: merge_outer_def Let_def)
  then show ?thesis
    by (simp only: count_value_counts count_repeat_SKUs)
qed

text \<open>
  Claim C5, amended. Let \<open>s\<close> be the table sorted by (Email, Date placed), and call a
  position of \<open>s\<close> first when no earlier position of \<open>s\<close> has its Email. Each Email of the
  table has exactly one first position, and the line there carries the earliest Date
  placed of that Email. In every row of the result the First Purchase Count is the number
  of first positions with that SKU and the Repeat Purchase Count the number of the other
  positions with that SKU: the other lines of a first order of several lines are counted
  as repeat purchases. The First Purchase Counts add up to the number of distinct Emails.
\<close>

theorem C5_one_first_line_per_customer:
  fixes df :: frame
  defines "s \<equiv> sort_key (\<lambda>r. (Email r, Date_placed r)) (rows df)"
  defines "first \<equiv> \<lambda>i. Email (s ! i) \<notin> Email ` set (take i s)"
  assumes "affinity_columns \<subseteq> columns df"
  shows "\<exists>fr.
           analyse_first_and_repeat_purchases df = Inr fr \<and>
           (\<forall>e\<in>Email ` set (rows df). card {i. i < length s \<and> Email (s ! i) = e \<and> first i} = 1) \<and>
           (\<forall>i<length s. first i \<longrightarrow>
              (\<forall>r\<in>set (rows df). Email r = Email (s ! i) \<longrightarrow> Date_placed (s ! i) \<le> Date_placed r)) \<and>
           (\<forall>a\<in>set fr.
              First_Purchase_Count a = card {i. i < length s \<and> SKU (s ! i) = f_SKU a \<and> first i} \<and>
              Repeat_Purchase_Count a = card {i. i < length s \<and> SKU (s ! i) = f_SKU a \<and> \<not> first i}) \<and>
           (\<Sum>a\<leftarrow>fr. First_Purchase_Count a) = card (Email ` set (rows df))"
proof -
  have len: "length s = length (rows df)" by (simp add: s_def)
  have cnt: "length (filter Q (df_sorted (rows df))) = card {i. i < length s \<and> Q (s ! i, first i)}" for Q
    unfolding first_def s_def length_sort by (rule count_df_sorted)
  have 1: "\<forall>e\<in>Email ` set (rows df). card {i. i < length s \<and> Email (s ! i) = e \<and> first i} = 1"
  proof
    fix e assume "e \<in> Email ` set (rows df)"
    then have "length (filter (\<lambda>x. snd x \<and> Email (fst x) = e) (df_sorted (rows df))) = 1"
      by (rule df_sorted_one_first)
    then have "card {i. i < length s \<and> first i \<and> Email (s ! i) = e} = 1"
      by (simp add: cnt)
    moreover have "{i. i < length s \<and> first i \<and> Email (s ! i) = e} = {i. i < length s \<and> Email (s ! i) = e \<and> first i}"
      by auto
    ultimately show "card {i. i < length s \<and> Email (s ! i) = e \<and> first i} = 1" by simp
  qed
  have 2: "\<forall>i<length s. first i \<longrightarrow>
      (\<forall>r\<in>set (rows df). Email r = Email (s ! i) \<longrightarrow> Date_placed (s ! i) \<le> Date_placed r)"
  proof (intro allI impI ballI)
    fix i r
    assume i: "i < length s" and f: "first i" and r: "r \<in> set (rows df)" and e: "Email r = Email (s ! i)"
    from i len have i': "i < length (rows df)" by simp
    have x: "df_sorted (rows df) ! i = (s ! i, first i)"
      unfolding first_def s_def by (rule nth_df_sorted [OF i'])
    from i' have "df_sorted (rows df) ! i \<in> set (df_sorted (rows df))"
      by (simp add: length_df_sorted)
    from df_sorted_first_is_earliest [OF this _ r] x f e
    show "Date_placed (s ! i) \<le> Date_placed r" by simp
  qed
  have 3: "\<forall>a\<in>set (affinity_of (rows df)).
      First_Purchase_Count a = card {i. i < length s \<and> SKU (s ! i) = f_SKU a \<and> first i} \<and>
      Repeat_Purchase_Count a = card {i. i < length s \<and> SKU (s ! i) = f_SKU a \<and> \<not> first i}"
  proof
    fix a assume a: "a \<in> set (affinity_of (rows df))"
    have "First_Purchase_Count a = card {i. i < length s \<and> first i \<and> SKU (s ! i) = f_SKU a}"
      by (simp add: First_Purchase_Count_affinity_of [OF a] cnt)
    moreover have "{i. i < length s \<and> first i \<and> SKU (s ! i) = f_SKU a}
        = {i. i < length s \<and> SKU (s ! i) = f_SKU a \<and> first i}" by auto
    moreover have "Repeat_Purchase_Count a = card {i. i < length s \<and> \<not> first i \<and> SKU (s ! i) = f_SKU a}"
      by (simp add: Repeat_Purchase_Count_affinity_of [OF a] cnt)
    moreover have "{i. i < length s \<and> \<not> first i \<and> SKU (s ! i) = f_SKU a}
        = {i. i < length s \<and> SKU (s ! i) = f_SKU a \<and> \<not> first i}" by auto
    ultimately show "First_Purchase_Count a = card {i. i < length s \<and> SKU (s ! i) = f_SKU a \<and> first i} \<and>
      Repeat_Purchase_Count a = card {i. i < length s \<and> SKU (s ! i) = f_SKU a \<and> \<not> first i}"
      by simp
  qed
  from analyse_first_and_repeat_purchases_eq [OF assms(3)] 1 2 3 sum_First_Purchase_Count [of "rows df"]
  show ?thesis
    by (intro exI [of _ "affinity_of (rows df)"] conjI)
qed

lemma columns_two_line_order: "affinity_columns \<subseteq> columns two_line_order"
  by (simp add: affinity_columns_def two_line_order_def csv_table_def csv_columns_def)

lemma affinity_of_two_line_order:
  "map (\<lambda>a. (f_SKU a, First_Purchase_Count a, Repeat_Purchase_Count a)) (affinity_of (rows two_line_order))
     = [(''X1'', 1, 0), (''Y1'', 0, 1)]"
  by code_simp

theorem C5_one_first_line_per_customer_witness:
  "affinity_columns \<subseteq> columns two_line_order \<and>
   (\<exists>fr.
      analyse_first_and_repeat_purchases two_line_order = Inr fr \<and>
      map (\<lambda>a. (f_SKU a, First_Purchase_Count a, Repeat_Purchase_Count a)) fr
        = [(''X1'', 1, 0), (''Y1'', 0, 1)] \<and>
      (\<Sum>a\<leftarrow>fr. First_Purchase_Count a) = 1)"
proof -
  from C5_one_first_line_per_customer [OF columns_two_line_order]
  obtain fr where r: "analyse_first_and_repeat_purchases two_line_order = Inr fr"
    and s: "(\<Sum>a\<leftarrow>fr. First_Purchase_Count a) = card (Email ` set (rows two_line_order))"
    by (elim exE conjE)
  from r analyse_first_and_repeat_purchases_eq [OF columns_two_line_order]
  have fr: "fr = affinity_of (rows two_line_order)" by simp
  have 1: "map (\<lambda>a. (f_SKU a, First_Purchase_Count a, Repeat_Purchase_Count a)) fr
        = [(''X1'', 1, 0), (''Y1'', 0, 1)]"
    by (simp only: fr affinity_of_two_line_order)
  have "card (Email ` set (rows two_line_order)) = 1"
    by (simp add: two_line_order_def csv_table_def csv_row_def)
  with s have 2: "(\<Sum>a\<leftarrow>fr. First_Purchase_Count a) = 1" by simp
  from columns_two_line_order r 1 2 show ?thesis
    by (intro conjI exI [of _ fr])
qed

text \<open>
  Claim C5 as stated fails: of the two lines of a customer's only order, the second is
  counted as a repeat purchase.
\<close>

theorem C5_counterexample:
  "purchase_counts two_line_order = Inr [(''X1'', 1, 0), (''Y1'', 0, 1)]"
  by code_simp

section \<open>Missing columns\<close>








end
